theory Spec2Isabelle
  imports Complex_Main "HOL-Library.Word"
begin

section \<open>Strings and JSON values of the host language\<close>

text \<open>
  A JavaScript string is a sequence of UTF-16 code units; \<open>length\<close> counts code units, as
  \<^verbatim>\<open>text.length\<close> does.  Literals of the source are written \<open>js ''...''\<close>.
\<close>

type_synonym jschar = "16 word"
type_synonym jsstring = "jschar list"

definition js :: "string \<Rightarrow> jsstring" where
  "js s = map of_char s"

definition nl :: jsstring where
  "nl = [0x0A]"

text \<open>
  The values \<^verbatim>\<open>JSON.parse\<close> can return.  A number is kept as a decimal \<open>m * 10 ^ e\<close>
  (\<open>JNum m e\<close>); the program reads a number only for its truthiness.  An object is the list
  of its own properties in property order; \<open>undefined\<close> is \<open>None\<close> of an option type.
\<close>

datatype json =
    JNull
  | JBool bool
  | JNum int int
  | JStr jsstring
  | JArr "json list"
  | JObj "(jsstring \<times> json) list"

fun truthy :: "json \<Rightarrow> bool" where
  "truthy JNull = False"
| "truthy (JBool b) = b"
| "truthy (JNum m e) = (m \<noteq> 0)"
| "truthy (JStr s) = (s \<noteq> [])"
| "truthy (JArr xs) = True"
| "truthy (JObj kvs) = True"

text \<open>Truthiness of a value that may be \<open>undefined\<close>.\<close>

fun truthyU :: "json option \<Rightarrow> bool" where
  "truthyU None = False"
| "truthyU (Some v) = truthy v"

text \<open>
  Property read \<^verbatim>\<open>v.k\<close> on a non-null value, for the property names this program reads
  (\<^verbatim>\<open>tool_call\<close>, \<^verbatim>\<open>name\<close>, \<^verbatim>\<open>arguments\<close>, \<^verbatim>\<open>llmContent\<close> and the fields of a stream
  chunk): only an object can own one; on a string, number, boolean or array the read gives
  \<open>undefined\<close>.
\<close>

fun getProp :: "json \<Rightarrow> jsstring \<Rightarrow> json option" where
  "getProp (JObj kvs) k = map_of kvs k"
| "getProp _ k = None"

text \<open>Truthiness of a string that may be \<open>undefined\<close> or \<open>null\<close>.\<close>

fun truthyS :: "jsstring option \<Rightarrow> bool" where
  "truthyS None = False"
| "truthyS (Some s) = (s \<noteq> [])"

text \<open>A template literal \<^verbatim>\<open>${x}\<close> prints an undefined \<open>x\<close> as the word \<open>undefined\<close>.\<close>

fun tmpl :: "jsstring option \<Rightarrow> jsstring" where
  "tmpl None = js ''undefined''"
| "tmpl (Some s) = s"

section \<open>Data model\<close>

record FunctionCall =
  fc_name :: "json option"
  fc_args :: "json option"

record FunctionResponse =
  fr_name :: "jsstring option"
  fr_response :: "json option"

record InlineData =
  mimeType :: "jsstring option"
  inline_data :: "jsstring option"

record FileData =
  fileUri :: "jsstring option"
  file_mimeType :: "jsstring option"

text \<open>A part is an object with optional fields (\<open>ptext\<close> is the field \<^verbatim>\<open>text\<close>).\<close>

record Part =
  ptext :: "jsstring option"
  functionCall :: "FunctionCall option"
  functionResponse :: "FunctionResponse option"
  inlineData :: "InlineData option"
  fileData :: "FileData option"

record Content =
  role :: "jsstring option"
  parts :: "Part list option"

record PropertySchema =
  prop_type :: "jsstring option"
  prop_description :: "jsstring option"

record Schema =
  properties :: "(jsstring \<times> PropertySchema) list option"
  required :: "jsstring list option"

record FunctionDeclaration =
  fd_name :: "jsstring option"
  fd_description :: "jsstring option"
  fd_parameters :: "Schema option"

text \<open>
  An optional property of an object: the key is absent, or it is present with the value
  \<open>undefined\<close> (or \<open>null\<close>), or it is present with a value.  The operator \<^verbatim>\<open>in\<close> tells
  the first state from the other two; truthiness tells the last from the first two.
\<close>

datatype 'a optionalKey = KeyAbsent | KeyUndefined | KeyValue 'a

text \<open>
  A tool entry, with its property \<^verbatim>\<open>functionDeclarations?: FunctionDeclaration[]\<close> (an
  array, also an empty one, is truthy).
\<close>

record Tool =
  functionDeclarations :: "FunctionDeclaration list optionalKey"

record OllamaMessage =
  msg_role :: "jsstring option"
  msg_content :: jsstring

record StreamDelta =
  delta_role :: "jsstring option"
  delta_content :: "jsstring option"

record StreamChoice =
  delta :: StreamDelta
  sc_finish_reason :: "jsstring option"

record OllamaStreamChunk =
  chunk_choices :: "StreamChoice list"

text \<open>
  The built-ins of the host language the program calls.  They are not code of the
  repository, so every function below takes them as a parameter:
  \<^item> \<open>JSON_parse s\<close> is \<^verbatim>\<open>JSON.parse(s)\<close>, \<open>None\<close> when it throws;
  \<^item> \<open>JSON_stringify v n\<close> is \<^verbatim>\<open>JSON.stringify(v, null, n)\<close> (\<open>n = 0\<close>: no third argument);
  \<^item> \<open>String_of v\<close> is \<^verbatim>\<open>String(v)\<close>;
  \<^item> \<open>JSON_parse_chunk s\<close> is \<^verbatim>\<open>JSON.parse(s)\<close> read at the annotated type
    \<^verbatim>\<open>OllamaStreamChunk\<close>, \<open>None\<close> when it throws.
\<close>

record builtins =
  JSON_parse :: "jsstring \<Rightarrow> json option"
  JSON_stringify :: "json \<Rightarrow> nat \<Rightarrow> jsstring"
  String_of :: "json \<Rightarrow> jsstring"
  JSON_parse_chunk :: "jsstring \<Rightarrow> OllamaStreamChunk option"

section \<open>Message format converter\<close>

text \<open>
  The object \<^verbatim>\<open>{tool_call: {name: fc.name, arguments: fc.args}}\<close>; a key whose value is
  \<open>undefined\<close> is left out when the object is serialised.
\<close>

fun optField :: "string \<Rightarrow> json option \<Rightarrow> (jsstring \<times> json) list" where
  "optField k None = []"
| "optField k (Some v) = [(js k, v)]"

definition toolCallObject :: "FunctionCall \<Rightarrow> json" where
  "toolCallObject fc =
     JObj [(js ''tool_call'', JObj (optField ''name'' (fc_name fc) @ optField ''arguments'' (fc_args fc)))]"

definition responseText :: "builtins \<Rightarrow> json option \<Rightarrow> jsstring" where
  "responseText B response =
     (case response of
        None \<Rightarrow> []
      | Some (JObj kvs) \<Rightarrow>
          (case map_of kvs (js ''llmContent'') of
             Some v \<Rightarrow> String_of B v
           | None \<Rightarrow> JSON_stringify B (JObj kvs) 0)
      | Some (JArr xs) \<Rightarrow> JSON_stringify B (JArr xs) 0
      | Some v \<Rightarrow> (if truthy v then String_of B v else []))"

text \<open>What one iteration of the loop of \<^verbatim>\<open>partsToText\<close> pushes onto \<^verbatim>\<open>textParts\<close>.\<close>

definition partPieces :: "builtins \<Rightarrow> Part \<Rightarrow> jsstring list" where
  "partPieces B part =
     (if truthyS (ptext part) then [the (ptext part)]
      else case functionCall part of
        Some fc \<Rightarrow> [nl @ JSON_stringify B (toolCallObject fc) 2 @ nl]
      | None \<Rightarrow>
      (case functionResponse part of
        Some fr \<Rightarrow>
          [nl @ js ''Tool \"'' @ tmpl (fr_name fr) @ js ''\" returned:'' @ nl
             @ responseText B (fr_response fr) @ nl]
      | None \<Rightarrow>
      (case inlineData part of
        Some d \<Rightarrow> [js ''[Inline data: '' @ tmpl (mimeType d) @ js '']'']
      | None \<Rightarrow>
      (case fileData part of
        Some f \<Rightarrow> [js ''[File: '' @ tmpl (fileUri f) @ js '']'']
      | None \<Rightarrow> []))))"

definition partsToText :: "builtins \<Rightarrow> Part list option \<Rightarrow> jsstring" where
  "partsToText B ps =
     (case ps of
        None \<Rightarrow> []
      | Some ps' \<Rightarrow> if ps' = [] then [] else concat (concat (map (partPieces B) ps')))"

section \<open>Tool-call extractor\<close>

text \<open>The class \<^verbatim>\<open>\s\<close> of a regular expression without the unicode flag.\<close>

definition isSpaceRE :: "jschar \<Rightarrow> bool" where
  "isSpaceRE c \<longleftrightarrow>
     c \<in> {0x09, 0x0A, 0x0B, 0x0C, 0x0D, 0x20, 0xA0, 0x1680, 0x2028, 0x2029, 0x202F,
          0x205F, 0x3000, 0xFEFF} \<or> (0x2000 \<le> c \<and> c \<le> 0x200A)"

definition startsWith :: "jsstring \<Rightarrow> jsstring \<Rightarrow> bool" where
  "startsWith s p \<longleftrightarrow> take (length p) s = p"

text \<open>
  The lazy group \<^verbatim>\<open>[\s\S]*?\}\<close> followed by \<^verbatim>\<open>\s*```\<close>, read after the opening brace:
  the shortest run of code units ending in a closing brace after which, past any white
  space, the closing fence stands.  The result is that run.
\<close>

fun lazyBody :: "jsstring \<Rightarrow> jsstring option" where
  "lazyBody [] = None"
| "lazyBody (c # cs) =
     (if c = 0x7D \<and> startsWith (dropWhile isSpaceRE cs) (js ''```'') then Some [c]
      else map_option (\<lambda>r. c # r) (lazyBody cs))"

text \<open>
  The expression \<^verbatim>\<open>```(?:json)?\s*(\{[\s\S]*?\})\s*```\<close> anchored at the head of \<open>s\<close>;
  the result is capture group 1.
\<close>

definition codeBlockAt :: "jsstring \<Rightarrow> jsstring option" where
  "codeBlockAt s =
     (if startsWith s (js ''```'') then
        (let s1 = drop 3 s;
             s2 = (if startsWith s1 (js ''json'') then drop 4 s1 else s1);
             s3 = dropWhile isSpaceRE s2
         in case s3 of
              [] \<Rightarrow> None
            | c # s4 \<Rightarrow> if c = 0x7B then map_option (\<lambda>r. c # r) (lazyBody s4) else None)
      else None)"

text \<open>\<^verbatim>\<open>text.match(...)\<close>: the leftmost position where the expression matches.\<close>

fun codeBlockMatch :: "jsstring \<Rightarrow> jsstring option" where
  "codeBlockMatch [] = None"
| "codeBlockMatch (c # cs) =
     (case codeBlockAt (c # cs) of
        Some g \<Rightarrow> Some g
      | None \<Rightarrow> codeBlockMatch cs)"

text \<open>\<^verbatim>\<open>s.indexOf(p)\<close>, \<open>None\<close> for \<open>-1\<close>.\<close>

fun indexOf :: "jsstring \<Rightarrow> jsstring \<Rightarrow> nat option" where
  "indexOf [] p = (if p = [] then Some 0 else None)"
| "indexOf (c # cs) p =
     (if startsWith (c # cs) p then Some 0 else map_option Suc (indexOf cs p))"

text \<open>\<^verbatim>\<open>s.lastIndexOf(c, from)\<close> for a single code unit \<open>c\<close>, \<open>None\<close> for \<open>-1\<close>.\<close>

fun lastIndexFrom :: "jsstring \<Rightarrow> jschar \<Rightarrow> nat \<Rightarrow> nat option \<Rightarrow> nat option" where
  "lastIndexFrom [] c i best = best"
| "lastIndexFrom (x # xs) c i best = lastIndexFrom xs c (Suc i) (if x = c then Some i else best)"

definition lastIndexOf :: "jsstring \<Rightarrow> jschar \<Rightarrow> nat \<Rightarrow> nat option" where
  "lastIndexOf s c from = lastIndexFrom (take (Suc from) s) c 0 None"

text \<open>\<^verbatim>\<open>s.substring(a, b)\<close>.\<close>

definition substring :: "jsstring \<Rightarrow> nat \<Rightarrow> nat \<Rightarrow> jsstring" where
  "substring s a b =
     (let a' = min a (length s); b' = min b (length s)
      in take (max a' b' - min a' b') (drop (min a' b') s))"

text \<open>
  The brace-counting loop, on the rest of the text from index \<open>i\<close>: the result is
  \<^verbatim>\<open>braceCount\<close> and \<^verbatim>\<open>endIndex\<close> when the loop is left.
\<close>

fun braceLoop :: "jsstring \<Rightarrow> nat \<Rightarrow> int \<Rightarrow> nat \<Rightarrow> int \<times> nat" where
  "braceLoop [] i braceCount endIndex = (braceCount, endIndex)"
| "braceLoop (c # cs) i braceCount endIndex =
     (if c = 0x7B then braceLoop cs (Suc i) (braceCount + 1) endIndex
      else if c = 0x7D then
        (if braceCount - 1 = 0 then (0, Suc i)
         else braceLoop cs (Suc i) (braceCount - 1) endIndex)
      else braceLoop cs (Suc i) braceCount endIndex)"

text \<open>The fallback of \<^verbatim>\<open>parseToolCall\<close> when no fenced block matched.\<close>

definition braceExtract :: "jsstring \<Rightarrow> jsstring option" where
  "braceExtract text =
     (case indexOf text (js ''\"tool_call\"'') of
        None \<Rightarrow> None
      | Some toolCallIndex \<Rightarrow>
          (case lastIndexOf text 0x7B toolCallIndex of
             None \<Rightarrow> None
           | Some openBraceIndex \<Rightarrow>
               (case braceLoop (drop openBraceIndex text) openBraceIndex 0 openBraceIndex of
                  (braceCount, endIndex) \<Rightarrow>
                    if braceCount = 0 then Some (substring text openBraceIndex endIndex)
                    else None)))"

definition extractJsonText :: "jsstring \<Rightarrow> jsstring option" where
  "extractJsonText text =
     (case codeBlockMatch text of
        Some g \<Rightarrow> if g = [] then braceExtract text else Some g
      | None \<Rightarrow> braceExtract text)"

text \<open>\<^verbatim>\<open>validToolNames.includes(toolName)\<close>: only a string equals a declared name.\<close>

fun includesName :: "jsstring option list \<Rightarrow> json \<Rightarrow> bool" where
  "includesName names (JStr s) = (Some s \<in> set names)"
| "includesName names _ = False"

text \<open>
  The validation step: \<open>True\<close> when the call is let through.  It reads the declarations of
  the first tool entry only, under \<^verbatim>\<open>'functionDeclarations' in firstTool && firstTool.functionDeclarations\<close>,
  and lets every name through when there is none to read.
\<close>

definition toolNameAccepted :: "Tool list option \<Rightarrow> json \<Rightarrow> bool" where
  "toolNameAccepted availableTools toolName =
     (case availableTools of
        None \<Rightarrow> True
      | Some [] \<Rightarrow> True
      | Some (firstTool # _) \<Rightarrow>
          (case functionDeclarations firstTool of
             KeyAbsent \<Rightarrow> True
           | KeyUndefined \<Rightarrow> True
           | KeyValue fds \<Rightarrow> includesName (map fd_name fds) toolName))"

text \<open>
  The part of \<^verbatim>\<open>parseToolCall\<close> inside \<^verbatim>\<open>try\<close>, after \<^verbatim>\<open>JSON.parse\<close> has returned
  \<open>parsed\<close>.  Reading a property of \<open>null\<close> throws, and the \<^verbatim>\<open>catch\<close> makes that \<open>null\<close>.
\<close>

definition callOfParsed :: "json \<Rightarrow> Tool list option \<Rightarrow> FunctionCall option" where
  "callOfParsed parsed availableTools =
     (case parsed of
        JNull \<Rightarrow> None
      | _ \<Rightarrow>
        (case getProp parsed (js ''tool_call'') of
           None \<Rightarrow> None
         | Some tc \<Rightarrow>
             if truthy tc \<and> truthyU (getProp tc (js ''name'')) then
               (let toolName = the (getProp tc (js ''name''))
                in if \<not> toolNameAccepted availableTools toolName then None
                   else Some \<lparr> fc_name = Some toolName,
                               fc_args = Some (if truthyU (getProp tc (js ''arguments''))
                                               then the (getProp tc (js ''arguments''))
                                               else JObj []) \<rparr>)
             else None))"

definition parseToolCall :: "builtins \<Rightarrow> jsstring \<Rightarrow> Tool list option \<Rightarrow> FunctionCall option" where
  "parseToolCall B text availableTools =
     (case extractJsonText text of
        None \<Rightarrow> None
      | Some jsonText \<Rightarrow>
          if jsonText = [] then None
          else (case JSON_parse B jsonText of
                  None \<Rightarrow> None
                | Some parsed \<Rightarrow> callOfParsed parsed availableTools))"

section \<open>Schema and instruction builder\<close>

fun joinWith :: "jsstring \<Rightarrow> jsstring list \<Rightarrow> jsstring" where
  "joinWith sep [] = []"
| "joinWith sep [x] = x"
| "joinWith sep (x # y # xs) = x @ sep @ joinWith sep (y # xs)"

text \<open>\<^verbatim>\<open>x || d\<close> for a string \<open>x\<close> that may be \<open>undefined\<close>.\<close>

definition orElse :: "jsstring option \<Rightarrow> jsstring \<Rightarrow> jsstring" where
  "orElse x d = (if truthyS x then the x else d)"

definition emptySchema :: Schema where
  "emptySchema = \<lparr> properties = None, required = None \<rparr>"

definition paramLine :: "jsstring list \<Rightarrow> jsstring \<times> PropertySchema \<Rightarrow> jsstring" where
  "paramLine req kv =
     (case kv of (key, val) \<Rightarrow>
        js ''    '' @ key @ (if key \<in> set req then js '' (required)'' else js '' (optional)'')
          @ js '': '' @ tmpl (prop_type val) @ js '' - '' @ orElse (prop_description val) [])"

definition toolDescription :: "FunctionDeclaration \<Rightarrow> jsstring" where
  "toolDescription fn =
     (let tool_name = orElse (fd_name fn) (js ''unknown'');
          tool_description = orElse (fd_description fn) [];
          tool_parameters = (case fd_parameters fn of Some p \<Rightarrow> p | None \<Rightarrow> emptySchema);
          props = (case properties tool_parameters of Some ps \<Rightarrow> ps | None \<Rightarrow> []);
          req = (case required tool_parameters of Some r \<Rightarrow> r | None \<Rightarrow> []);
          paramsList = joinWith nl (map (paramLine req) props)
      in tool_name @ js '': '' @ tool_description @ nl @ js ''  Parameters:'' @ nl
           @ (if paramsList \<noteq> [] then paramsList else js ''    (none)''))"

definition toolPrompt :: "FunctionDeclaration list \<Rightarrow> jsstring" where
  "toolPrompt fds =
     nl @ nl
     @ js ''You have access to these tools. Only use them when the user explicitly requests an action:''
     @ nl @ nl
     @ joinWith (nl @ nl) (map toolDescription fds)
     @ nl @ nl
     @ js ''To call a tool, respond with JSON using the EXACT parameter names shown above:'' @ nl
     @ js ''```json'' @ nl
     @ js ''{\"tool_call\": {\"name\": \"tool_name\", \"arguments\": {\"param_name\": \"value\"}}}'' @ nl
     @ js ''```'' @ nl
     @ nl
     @ js ''IMPORTANT:'' @ nl
     @ js ''- Use the exact parameter names from the tool definition (e.g., \"dir_path\" not \"directory_path\")'' @ nl
     @ js ''- Include all required parameters'' @ nl
     @ js ''- For questions or conversation, respond with normal text (no JSON)'' @ nl
     @ nl"

definition addToolInstructions :: "jsstring \<Rightarrow> Tool list option \<Rightarrow> jsstring" where
  "addToolInstructions systemInstruction tools =
     (case tools of
        None \<Rightarrow> systemInstruction
      | Some [] \<Rightarrow> systemInstruction
      | Some (firstTool # _) \<Rightarrow>
          (case functionDeclarations firstTool of
             KeyAbsent \<Rightarrow> systemInstruction
           | KeyUndefined \<Rightarrow> systemInstruction
           | KeyValue fds \<Rightarrow>
               if fds = [] then systemInstruction
               else systemInstruction @ toolPrompt fds))"

section \<open>Normalising the request\<close>

definition textPart :: "jsstring \<Rightarrow> Part" where
  "textPart s = \<lparr> ptext = Some s, functionCall = None, functionResponse = None,
                  inlineData = None, fileData = None \<rparr>"

definition userTurn :: "jsstring \<Rightarrow> Content" where
  "userTurn s = \<lparr> role = Some (js ''user''), parts = Some [textPart s] \<rparr>"

datatype ContentItem = CIString jsstring | CIContent Content

datatype ContentListUnion = CLString jsstring | CLArray "ContentItem list" | CLContent Content

fun normalizeContents :: "ContentListUnion \<Rightarrow> Content list" where
  "normalizeContents (CLString s) = [userTurn s]"
| "normalizeContents (CLArray cs) =
     map (\<lambda>c. case c of CIString s \<Rightarrow> userTurn s | CIContent c' \<Rightarrow> c') cs"
| "normalizeContents (CLContent c) = [c]"

datatype PartUnion = PUString jsstring | PUPart Part

datatype PartListUnion = PLString jsstring | PLArray "PartUnion list" | PLPart Part

fun normalizeParts :: "PartListUnion option \<Rightarrow> Part list" where
  "normalizeParts None = []"
| "normalizeParts (Some (PLString s)) = (if s = [] then [] else [textPart s])"
| "normalizeParts (Some (PLArray ps)) =
     map (\<lambda>p. case p of PUString s \<Rightarrow> textPart s | PUPart p' \<Rightarrow> p') ps"
| "normalizeParts (Some (PLPart p)) = [p]"

text \<open>
  The system instruction of a request: a string, a content (it has the key \<^verbatim>\<open>parts\<close>),
  an array of parts or strings, or a single part.
\<close>

datatype SystemInstruction =
    SIString jsstring
  | SIContent Content
  | SIArray "PartUnion list"
  | SIPart Part

text \<open>The flattening of the system instruction at the head of both generation methods.\<close>

fun systemTextOf :: "builtins \<Rightarrow> SystemInstruction option \<Rightarrow> jsstring" where
  "systemTextOf B None = []"
| "systemTextOf B (Some (SIString s)) = s"
| "systemTextOf B (Some (SIContent c)) =
     partsToText B (Some (normalizeParts (map_option (\<lambda>ps. PLArray (map PUPart ps)) (parts c))))"
| "systemTextOf B (Some (SIArray ps)) = partsToText B (Some (normalizeParts (Some (PLArray ps))))"
| "systemTextOf B (Some (SIPart p)) = orElse (ptext p) []"

text \<open>The second parameter of \<^verbatim>\<open>convertToOllamaMessages\<close>: \<^verbatim>\<open>string | Part | Part[] | Content\<close>.\<close>

datatype SystemArg =
    SAString jsstring
  | SAPart Part
  | SAParts "Part list"
  | SAContent Content

fun systemArgText :: "builtins \<Rightarrow> SystemArg option \<Rightarrow> jsstring" where
  "systemArgText B None = []"
| "systemArgText B (Some (SAString s)) = s"
| "systemArgText B (Some (SAContent c)) = partsToText B (parts c)"
| "systemArgText B (Some (SAParts ps)) = partsToText B (Some ps)"
| "systemArgText B (Some (SAPart p)) = orElse (ptext p) []"

text \<open>The message of one turn, if its flattened text is not empty.\<close>

definition turnMessage :: "builtins \<Rightarrow> Content \<Rightarrow> OllamaMessage list" where
  "turnMessage B content =
     (let r = (if role content = Some (js ''model'') then Some (js ''assistant'') else role content);
          text = partsToText B (Some (case parts content of Some ps \<Rightarrow> ps | None \<Rightarrow> []))
      in if text \<noteq> [] then [\<lparr> msg_role = r, msg_content = text \<rparr>] else [])"

definition convertToOllamaMessages ::
    "builtins \<Rightarrow> Content list \<Rightarrow> SystemArg option \<Rightarrow> OllamaMessage list" where
  "convertToOllamaMessages B contents systemInstruction =
     (let systemText = systemArgText B systemInstruction
      in (if systemText \<noteq> [] then [\<lparr> msg_role = Some (js ''system''), msg_content = systemText \<rparr>]
          else [])
         @ concat (map (turnMessage B) contents))"

section \<open>Response adapter\<close>

datatype FinishReason = STOP | MAX_TOKENS

record Candidate =
  cand_content :: Content
  finishReason :: "FinishReason option"
  cand_index :: nat

record UsageMetadata =
  promptTokenCount :: int
  candidatesTokenCount :: int
  totalTokenCount :: int

record GenerateContentResponse =
  candidates :: "Candidate list"
  usageMetadata :: "UsageMetadata option"

record CompletionMessage =
  cm_role :: jsstring
  cm_content :: jsstring

record CompletionChoice =
  message :: CompletionMessage
  cc_finish_reason :: jsstring

record Usage =
  prompt_tokens :: int
  completion_tokens :: int
  total_tokens :: int

record OllamaCompletionResponse =
  choices :: "CompletionChoice list"
  usage :: Usage

datatype error =
    TypeError
  | FetchFailed
  | OllamaApiError nat jsstring
  | NoResponseBody
  | JsonSyntaxError
  | EmbedNotImplemented

text \<open>
  \<^verbatim>\<open>tools && tools.length > 0 && 'functionDeclarations' in tools[0]\<close>: the key has to be
  there, whatever its value.
\<close>

definition hasTools :: "Tool list option \<Rightarrow> bool" where
  "hasTools tools =
     (case tools of
        None \<Rightarrow> False
      | Some [] \<Rightarrow> False
      | Some (firstTool # _) \<Rightarrow> functionDeclarations firstTool \<noteq> KeyAbsent)"

text \<open>
  \<^verbatim>\<open>hasTools ? this.parseToolCall(text, tools) : null\<close>.  Beside the value, the result
  lists the texts the extractor was invoked on (one entry per invocation).
\<close>

definition runExtractor ::
    "builtins \<Rightarrow> Tool list option \<Rightarrow> jsstring \<Rightarrow> FunctionCall option \<times> jsstring list" where
  "runExtractor B tools text =
     (if hasTools tools then (parseToolCall B text tools, [text]) else (None, []))"

definition functionCallPart :: "FunctionCall \<Rightarrow> Part" where
  "functionCallPart fc = \<lparr> ptext = None, functionCall = Some fc, functionResponse = None,
                          inlineData = None, fileData = None \<rparr>"

definition modelTurn :: "Part list \<Rightarrow> Content" where
  "modelTurn ps = \<lparr> role = Some (js ''model''), parts = Some ps \<rparr>"

text \<open>
  \<^verbatim>\<open>convertToGeminiResponse\<close>, with the list of extractor invocations.  An empty
  \<^verbatim>\<open>choices\<close> array makes \<^verbatim>\<open>choice.message\<close> throw.
\<close>

definition convertToGeminiResponse_traced ::
    "builtins \<Rightarrow> OllamaCompletionResponse \<Rightarrow> Tool list option
      \<Rightarrow> error + (GenerateContentResponse \<times> jsstring list)" where
  "convertToGeminiResponse_traced B ollamaResponse tools =
     (case choices ollamaResponse of
        [] \<Rightarrow> Inl TypeError
      | choice # _ \<Rightarrow>
          (let content = cm_content (message choice);
               (toolCall, calls) = runExtractor B tools content;
               ps = (case toolCall of
                       Some tc \<Rightarrow> [functionCallPart tc]
                     | None \<Rightarrow> [textPart content]);
               fr = (if cc_finish_reason choice = js ''length'' then MAX_TOKENS else STOP)
           in Inr (\<lparr> candidates = [\<lparr> cand_content = modelTurn ps,
                                      finishReason = Some fr, cand_index = 0 \<rparr>],
                      usageMetadata = Some \<lparr>
                        promptTokenCount = prompt_tokens (usage ollamaResponse),
                        candidatesTokenCount = completion_tokens (usage ollamaResponse),
                        totalTokenCount = total_tokens (usage ollamaResponse) \<rparr> \<rparr>,
                    calls)))"

definition convertToGeminiResponse ::
    "builtins \<Rightarrow> OllamaCompletionResponse \<Rightarrow> Tool list option \<Rightarrow> error + GenerateContentResponse" where
  "convertToGeminiResponse B ollamaResponse tools =
     map_sum id fst (convertToGeminiResponse_traced B ollamaResponse tools)"

section \<open>The generator and its requests\<close>

record OllamaContentGenerator =
  baseUrl :: jsstring
  model :: jsstring

text \<open>The constructor removes one trailing slash of the base URL.\<close>

definition newOllamaContentGenerator :: "jsstring \<Rightarrow> jsstring \<Rightarrow> OllamaContentGenerator" where
  "newOllamaContentGenerator url m =
     \<lparr> baseUrl = (if url \<noteq> [] \<and> last url = 0x2F then butlast url else url), model = m \<rparr>"

text \<open>A number of the request (\<open>(m, e)\<close> is \<open>m * 10 ^ e\<close>); it is copied, never computed with.\<close>

type_synonym jsnumber = "int \<times> int"

record GenerateContentConfig =
  cfg_systemInstruction :: "SystemInstruction option"
  cfg_tools :: "Tool list option"
  cfg_temperature :: "jsnumber option"
  cfg_maxOutputTokens :: "jsnumber option"

record GenerateContentParameters =
  req_contents :: ContentListUnion
  req_config :: "GenerateContentConfig option"

record OllamaRequest =
  req_model :: jsstring
  messages :: "OllamaMessage list"
  stream :: bool
  req_temperature :: "jsnumber option"
  max_tokens :: "jsnumber option"

definition requestTools :: "GenerateContentParameters \<Rightarrow> Tool list option" where
  "requestTools request = (case req_config request of None \<Rightarrow> None | Some c \<Rightarrow> cfg_tools c)"

text \<open>
  The head of \<^verbatim>\<open>generateContent\<close> and of \<^verbatim>\<open>generateContentStreamInternal\<close> (the same
  statements in both): the system text, with the tool instructions added only when it is
  not empty.
\<close>

definition requestSystemText :: "builtins \<Rightarrow> GenerateContentParameters \<Rightarrow> jsstring" where
  "requestSystemText B request =
     (let systemText = systemTextOf B (case req_config request of None \<Rightarrow> None
                                       | Some c \<Rightarrow> cfg_systemInstruction c)
      in if systemText \<noteq> [] then addToolInstructions systemText (requestTools request)
         else systemText)"

definition buildOllamaRequest ::
    "builtins \<Rightarrow> OllamaContentGenerator \<Rightarrow> bool \<Rightarrow> GenerateContentParameters \<Rightarrow> OllamaRequest" where
  "buildOllamaRequest B gen streaming request =
     \<lparr> req_model = model gen,
       messages = convertToOllamaMessages B (normalizeContents (req_contents request))
                    (Some (SAString (requestSystemText B request))),
       stream = streaming,
       req_temperature = (case req_config request of None \<Rightarrow> None | Some c \<Rightarrow> cfg_temperature c),
       max_tokens = (case req_config request of None \<Rightarrow> None | Some c \<Rightarrow> cfg_maxOutputTokens c) \<rparr>"

text \<open>
  What \<^verbatim>\<open>fetch\<close> resolves to: the status, the body as text (read on an error status), the
  body as the completion object (\<open>None\<close>: \<^verbatim>\<open>response.json()\<close> throws), and the body as
  the successive reads of its stream, already decoded (\<open>None\<close>: no body).
\<close>

record FetchResponse =
  ok :: bool
  status :: nat
  body_text :: jsstring
  body_json :: "OllamaCompletionResponse option"
  body_reads :: "jsstring list option"

definition generateContent_traced ::
    "builtins \<Rightarrow> GenerateContentParameters \<Rightarrow> error + FetchResponse
      \<Rightarrow> error + (GenerateContentResponse \<times> jsstring list)" where
  "generateContent_traced B request fetched =
     (case fetched of
        Inl e \<Rightarrow> Inl e
      | Inr response \<Rightarrow>
          if \<not> ok response then Inl (OllamaApiError (status response) (body_text response))
          else (case body_json response of
                  None \<Rightarrow> Inl JsonSyntaxError
                | Some ollamaResponse \<Rightarrow>
                    convertToGeminiResponse_traced B ollamaResponse (requestTools request)))"

definition generateContent ::
    "builtins \<Rightarrow> GenerateContentParameters \<Rightarrow> error + FetchResponse
      \<Rightarrow> error + GenerateContentResponse" where
  "generateContent B request fetched = map_sum id fst (generateContent_traced B request fetched)"

section \<open>Streaming\<close>

text \<open>\<^verbatim>\<open>s.split('\n')\<close>: the result always has at least one element.\<close>

fun splitLines :: "jsstring \<Rightarrow> jsstring list" where
  "splitLines [] = [[]]"
| "splitLines (c # cs) =
     (if c = 0x0A then [] # splitLines cs
      else (case splitLines cs of
              [] \<Rightarrow> [[c]]
            | l # ls \<Rightarrow> (c # l) # ls))"

definition streamFinishReason :: "jsstring option \<Rightarrow> FinishReason option" where
  "streamFinishReason fr =
     (if truthyS fr then Some (if fr = Some (js ''length'') then MAX_TOKENS else STOP) else None)"

definition textEvent :: "jsstring \<Rightarrow> jsstring option \<Rightarrow> GenerateContentResponse" where
  "textEvent content fr =
     \<lparr> candidates = [\<lparr> cand_content = modelTurn [textPart content],
                       finishReason = streamFinishReason fr, cand_index = 0 \<rparr>],
       usageMetadata = None \<rparr>"

definition functionCallEvent :: "FunctionCall \<Rightarrow> GenerateContentResponse" where
  "functionCallEvent toolCall =
     \<lparr> candidates = [\<lparr> cand_content = modelTurn [functionCallPart toolCall],
                       finishReason = Some STOP, cand_index = 0 \<rparr>],
       usageMetadata = Some \<lparr> promptTokenCount = 0, candidatesTokenCount = 0,
                              totalTokenCount = 0 \<rparr> \<rparr>"

text \<open>
  The body of \<^verbatim>\<open>try\<close> for one parsed chunk: the new \<^verbatim>\<open>accumulatedText\<close>, the responses
  yielded, and the texts the extractor was invoked on.
\<close>

definition processChunk ::
    "builtins \<Rightarrow> Tool list option \<Rightarrow> jsstring \<Rightarrow> OllamaStreamChunk
      \<Rightarrow> jsstring \<times> GenerateContentResponse list \<times> jsstring list" where
  "processChunk B tools accumulatedText chunk =
     (case chunk_choices chunk of
        [] \<Rightarrow> (accumulatedText, [], [])
      | choice # _ \<Rightarrow>
          (let content = delta_content (delta choice);
               acc = (if truthyS content then accumulatedText @ the content else accumulatedText);
               ev1 = (if truthyS content then [textEvent (the content) (sc_finish_reason choice)]
                      else []);
               (toolCall, calls) = (if truthyS (sc_finish_reason choice)
                                    then runExtractor B tools acc else (None, []));
               ev2 = (case toolCall of Some tc \<Rightarrow> [functionCallEvent tc] | None \<Rightarrow> [])
           in (acc, ev1 @ ev2, calls)))"

definition processLine ::
    "builtins \<Rightarrow> Tool list option \<Rightarrow> jsstring \<Rightarrow> jsstring
      \<Rightarrow> jsstring \<times> GenerateContentResponse list \<times> jsstring list" where
  "processLine B tools accumulatedText line =
     (if startsWith line (js ''data: '') then
        (let data = drop 6 line
         in if data = js ''[DONE]'' then (accumulatedText, [], [])
            else (case JSON_parse_chunk B data of
                    None \<Rightarrow> (accumulatedText, [], [])
                  | Some chunk \<Rightarrow> processChunk B tools accumulatedText chunk))
      else (accumulatedText, [], []))"

fun processLines ::
    "builtins \<Rightarrow> Tool list option \<Rightarrow> jsstring \<Rightarrow> jsstring list
      \<Rightarrow> jsstring \<times> GenerateContentResponse list \<times> jsstring list" where
  "processLines B tools accumulatedText [] = (accumulatedText, [], [])"
| "processLines B tools accumulatedText (line # rest) =
     (case processLine B tools accumulatedText line of
        (acc1, ev1, calls1) \<Rightarrow>
          (case processLines B tools acc1 rest of
             (acc2, ev2, calls2) \<Rightarrow> (acc2, ev1 @ ev2, calls1 @ calls2)))"

text \<open>
  The \<^verbatim>\<open>while\<close> loop over the reads of the body, with the state \<^verbatim>\<open>buffer\<close> and
  \<^verbatim>\<open>accumulatedText\<close>.  What is left in \<^verbatim>\<open>buffer\<close> when the reader is done is not read.
\<close>

fun readLoop ::
    "builtins \<Rightarrow> Tool list option \<Rightarrow> jsstring \<Rightarrow> jsstring \<Rightarrow> jsstring list
      \<Rightarrow> GenerateContentResponse list \<times> jsstring list" where
  "readLoop B tools buffer accumulatedText [] = ([], [])"
| "readLoop B tools buffer accumulatedText (val # rest) =
     (let lines = splitLines (buffer @ val);
          buffer1 = (if lines = [] then [] else last lines)
      in case processLines B tools accumulatedText (butlast lines) of
           (acc1, ev1, calls1) \<Rightarrow>
             (case readLoop B tools buffer1 acc1 rest of
                (ev2, calls2) \<Rightarrow> (ev1 @ ev2, calls1 @ calls2)))"

definition generateContentStream_traced ::
    "builtins \<Rightarrow> GenerateContentParameters \<Rightarrow> error + FetchResponse
      \<Rightarrow> error + (GenerateContentResponse list \<times> jsstring list)" where
  "generateContentStream_traced B request fetched =
     (case fetched of
        Inl e \<Rightarrow> Inl e
      | Inr response \<Rightarrow>
          if \<not> ok response then Inl (OllamaApiError (status response) (body_text response))
          else (case body_reads response of
                  None \<Rightarrow> Inl NoResponseBody
                | Some reads \<Rightarrow> Inr (readLoop B (requestTools request) [] [] reads)))"

definition generateContentStream ::
    "builtins \<Rightarrow> GenerateContentParameters \<Rightarrow> error + FetchResponse
      \<Rightarrow> error + GenerateContentResponse list" where
  "generateContentStream B request fetched =
     map_sum id fst (generateContentStream_traced B request fetched)"

section \<open>Auxiliary operations\<close>

record CountTokensParameters =
  ct_contents :: ContentListUnion

record CountTokensResponse =
  totalTokens :: int

definition countTokensText :: "builtins \<Rightarrow> CountTokensParameters \<Rightarrow> jsstring" where
  "countTokensText B request =
     (let cs = normalizeContents (ct_contents request);
          allParts = concat (map (\<lambda>c. case parts c of Some ps \<Rightarrow> ps | None \<Rightarrow> []) cs)
      in partsToText B (Some allParts))"

definition countTokens :: "builtins \<Rightarrow> CountTokensParameters \<Rightarrow> CountTokensResponse" where
  "countTokens B request =
     \<lparr> totalTokens = \<lceil>real (length (countTokensText B request)) / 4\<rceil> \<rparr>"

record EmbedContentParameters =
  embed_model :: jsstring
  embed_contents :: ContentListUnion

record EmbedContentResponse =
  embeddings :: "jsnumber list list"

definition embedContent :: "EmbedContentParameters \<Rightarrow> error + EmbedContentResponse" where
  "embedContent request = Inl EmbedNotImplemented"

section \<open>A reference implementation of the built-ins\<close>

text \<open>
  The theorems below hold for any built-ins.  To run the program on concrete inputs, this
  section implements them for the values of type \<open>json\<close>: \<^verbatim>\<open>JSON.stringify\<close> with its
  quoting and indentation, \<^verbatim>\<open>String\<close>, and \<^verbatim>\<open>JSON.parse\<close>.  A number stays the
  decimal it is written as: rounding to a double, with its overflow to infinity and its
  underflow to zero, is not modelled, and no statement below reads a number.
\<close>

definition hexDigit :: "nat \<Rightarrow> jschar" where
  "hexDigit n = of_nat (if n < 10 then 48 + n else 87 + n)"

definition unicodeEscape :: "jschar \<Rightarrow> jsstring" where
  "unicodeEscape c =
     (let n = unat c
      in [0x5C, 0x75, hexDigit (n div 4096 mod 16), hexDigit (n div 256 mod 16),
          hexDigit (n div 16 mod 16), hexDigit (n mod 16)])"

definition isHighSurrogate :: "jschar \<Rightarrow> bool" where
  "isHighSurrogate c \<longleftrightarrow> 0xD800 \<le> c \<and> c \<le> 0xDBFF"

definition isLowSurrogate :: "jschar \<Rightarrow> bool" where
  "isLowSurrogate c \<longleftrightarrow> 0xDC00 \<le> c \<and> c \<le> 0xDFFF"

fun quoteUnits :: "jsstring \<Rightarrow> jsstring" where
  "quoteUnits [] = []"
| "quoteUnits (c # cs) =
     (if c = 0x08 then [0x5C, 0x62] @ quoteUnits cs
      else if c = 0x09 then [0x5C, 0x74] @ quoteUnits cs
      else if c = 0x0A then [0x5C, 0x6E] @ quoteUnits cs
      else if c = 0x0C then [0x5C, 0x66] @ quoteUnits cs
      else if c = 0x0D then [0x5C, 0x72] @ quoteUnits cs
      else if c = 0x22 then [0x5C, 0x22] @ quoteUnits cs
      else if c = 0x5C then [0x5C, 0x5C] @ quoteUnits cs
      else if c < 0x20 then unicodeEscape c @ quoteUnits cs
      else if isHighSurrogate c then
        (case cs of
           [] \<Rightarrow> unicodeEscape c
         | d # ds \<Rightarrow> if isLowSurrogate d then c # d # quoteUnits ds
                     else unicodeEscape c @ quoteUnits cs)
      else if isLowSurrogate c then unicodeEscape c @ quoteUnits cs
      else c # quoteUnits cs)"

declare quoteUnits.simps(2) [simp del]

definition quoteJSONString :: "jsstring \<Rightarrow> jsstring" where
  "quoteJSONString s = [0x22] @ quoteUnits s @ [0x22]"

fun digitsOf :: "nat \<Rightarrow> jsstring" where
  "digitsOf n = (if n < 10 then [of_nat (48 + n)] else digitsOf (n div 10) @ [of_nat (48 + n mod 10)])"

declare digitsOf.simps [simp del]

fun stripZeros :: "nat \<Rightarrow> int \<Rightarrow> nat \<times> int" where
  "stripZeros a e = (if a \<noteq> 0 \<and> a mod 10 = 0 then stripZeros (a div 10) (e + 1) else (a, e))"

declare stripZeros.simps [simp del]

definition numberToString :: "int \<Rightarrow> int \<Rightarrow> jsstring" where
  "numberToString m e =
     (if m = 0 then js ''0''
      else
        (case stripZeros (nat \<bar>m\<bar>) e of (a, e') \<Rightarrow>
          (let ds = digitsOf a;
               k = int (length ds);
               n = k + e';
               body =
                 (if k \<le> n \<and> n \<le> 21 then ds @ replicate (nat (n - k)) 0x30
                  else if 0 < n \<and> n \<le> 21 then take (nat n) ds @ js ''.'' @ drop (nat n) ds
                  else if -6 < n \<and> n \<le> 0 then js ''0.'' @ replicate (nat (- n)) 0x30 @ ds
                  else (if k = 1 then ds else take 1 ds @ js ''.'' @ drop 1 ds)
                       @ js ''e'' @ (if n - 1 < 0 then js ''-'' else js ''+'')
                       @ digitsOf (nat \<bar>n - 1\<bar>))
           in (if m < 0 then js ''-'' else []) @ body)))"

fun serialize :: "jsstring \<Rightarrow> jsstring \<Rightarrow> json \<Rightarrow> jsstring" where
  "serialize gap ind JNull = js ''null''"
| "serialize gap ind (JBool b) = (if b then js ''true'' else js ''false'')"
| "serialize gap ind (JNum m e) = numberToString m e"
| "serialize gap ind (JStr s) = quoteJSONString s"
| "serialize gap ind (JArr xs) =
     (if xs = [] then js ''[]''
      else if gap = [] then js ''['' @ joinWith (js '','') (map (serialize gap (ind @ gap)) xs) @ js '']''
      else js ''['' @ nl @ ind @ gap
             @ joinWith (js '','' @ nl @ ind @ gap) (map (serialize gap (ind @ gap)) xs)
             @ nl @ ind @ js '']'')"
| "serialize gap ind (JObj kvs) =
     (if kvs = [] then js ''{}''
      else if gap = [] then
        js ''{'' @ joinWith (js '','')
                    (map (\<lambda>(k, v). quoteJSONString k @ js '':'' @ serialize gap (ind @ gap) v) kvs)
          @ js ''}''
      else js ''{'' @ nl @ ind @ gap
             @ joinWith (js '','' @ nl @ ind @ gap)
                 (map (\<lambda>(k, v). quoteJSONString k @ js '': '' @ serialize gap (ind @ gap) v) kvs)
             @ nl @ ind @ js ''}'')"

definition json_stringify :: "json \<Rightarrow> nat \<Rightarrow> jsstring" where
  "json_stringify v space = serialize (replicate (min space 10) 0x20) [] v"

fun js_String :: "json \<Rightarrow> jsstring" where
  "js_String JNull = js ''null''"
| "js_String (JBool b) = (if b then js ''true'' else js ''false'')"
| "js_String (JNum m e) = numberToString m e"
| "js_String (JStr s) = s"
| "js_String (JArr xs) = joinWith (js '','') (map (\<lambda>x. if x = JNull then [] else js_String x) xs)"
| "js_String (JObj kvs) = js ''[object Object]''"


definition isJsonSpace :: "jschar \<Rightarrow> bool" where
  "isJsonSpace c \<longleftrightarrow> c = 0x20 \<or> c = 0x09 \<or> c = 0x0A \<or> c = 0x0D"

definition isDigit :: "jschar \<Rightarrow> bool" where
  "isDigit c \<longleftrightarrow> 0x30 \<le> c \<and> c \<le> 0x39"

definition hexVal :: "jschar \<Rightarrow> nat option" where
  "hexVal c =
     (if 0x30 \<le> c \<and> c \<le> 0x39 then Some (unat c - 48)
      else if 0x61 \<le> c \<and> c \<le> 0x66 then Some (unat c - 87)
      else if 0x41 \<le> c \<and> c \<le> 0x46 then Some (unat c - 55)
      else None)"

definition escapeChar :: "jschar \<Rightarrow> jschar option" where
  "escapeChar e =
     (if e = 0x22 \<or> e = 0x5C \<or> e = 0x2F then Some e
      else if e = 0x62 then Some 0x08
      else if e = 0x66 then Some 0x0C
      else if e = 0x6E then Some 0x0A
      else if e = 0x72 then Some 0x0D
      else if e = 0x74 then Some 0x09
      else None)"

text \<open>A string literal after its opening quote: the string and the rest of the input.\<close>

fun parseStringBody :: "jsstring \<Rightarrow> (jsstring \<times> jsstring) option" where
  "parseStringBody [] = None"
| "parseStringBody (c # cs) =
     (if c = 0x22 then Some ([], cs)
      else if c = 0x5C then
        (case cs of
           [] \<Rightarrow> None
         | e # r \<Rightarrow>
             if e = 0x75 then
               (case r of
                  h1 # h2 # h3 # h4 # r' \<Rightarrow>
                    (case (hexVal h1, hexVal h2, hexVal h3, hexVal h4) of
                       (Some a, Some b, Some c', Some d) \<Rightarrow>
                         map_option (\<lambda>(s, rest). (of_nat (a * 4096 + b * 256 + c' * 16 + d) # s, rest))
                           (parseStringBody r')
                     | _ \<Rightarrow> None)
                | _ \<Rightarrow> None)
             else (case escapeChar e of
                     None \<Rightarrow> None
                   | Some x \<Rightarrow> map_option (\<lambda>(s, rest). (x # s, rest)) (parseStringBody r)))
      else if c < 0x20 then None
      else map_option (\<lambda>(s, rest). (c # s, rest)) (parseStringBody cs))"

definition digitsValue :: "jsstring \<Rightarrow> nat" where
  "digitsValue ds = foldl (\<lambda>a d. 10 * a + (unat d - 48)) 0 ds"

text \<open>A number literal \<^verbatim>\<open>-?(0|[1-9][0-9]*)(\.[0-9]+)?([eE][+-]?[0-9]+)?\<close> at the head of the input.\<close>

definition parseNumber :: "jsstring \<Rightarrow> (json \<times> jsstring) option" where
  "parseNumber s =
     (let neg = startsWith s (js ''-'');
          s1 = (if neg then drop 1 s else s);
          ip = takeWhile isDigit s1;
          s2 = dropWhile isDigit s1;
          hasFrac = startsWith s2 (js ''.'');
          fp = (if hasFrac then takeWhile isDigit (drop 1 s2) else []);
          s3 = (if hasFrac then dropWhile isDigit (drop 1 s2) else s2);
          hasExp = startsWith s3 (js ''e'') \<or> startsWith s3 (js ''E'');
          s4 = (if hasExp then drop 1 s3 else s3);
          eneg = hasExp \<and> startsWith s4 (js ''-'');
          s5 = (if hasExp \<and> (startsWith s4 (js ''-'') \<or> startsWith s4 (js ''+'')) then drop 1 s4 else s4);
          ep = (if hasExp then takeWhile isDigit s5 else []);
          s6 = (if hasExp then dropWhile isDigit s5 else s3)
      in if ip = [] \<or> (length ip > 1 \<and> hd ip = 0x30) \<or> (hasFrac \<and> fp = []) \<or> (hasExp \<and> ep = [])
         then None
         else Some (JNum ((if neg then -1 else 1) * int (digitsValue (ip @ fp)))
                         ((if eneg then -1 else 1) * int (digitsValue ep) - int (length fp)),
                    s6))"

text \<open>
  Property order of an object: a repeated key keeps its first place and its last value;
  the keys that are array indices come first, in ascending order.
\<close>

fun setProp :: "jsstring \<Rightarrow> json \<Rightarrow> (jsstring \<times> json) list \<Rightarrow> (jsstring \<times> json) list" where
  "setProp k v [] = [(k, v)]"
| "setProp k v ((k', v') # kvs) = (if k = k' then (k, v) # kvs else (k', v') # setProp k v kvs)"

definition isArrayIndex :: "jsstring \<Rightarrow> bool" where
  "isArrayIndex k \<longleftrightarrow>
     k \<noteq> [] \<and> list_all isDigit k \<and> (k = js ''0'' \<or> hd k \<noteq> 0x30) \<and> digitsValue k < 4294967295"

definition propertyOrder :: "(jsstring \<times> json) list \<Rightarrow> (jsstring \<times> json) list" where
  "propertyOrder kvs =
     (let ps = foldl (\<lambda>acc (k, v). setProp k v acc) [] kvs
      in sort_key (\<lambda>(k, v). digitsValue k) (filter (\<lambda>(k, v). isArrayIndex k) ps)
         @ filter (\<lambda>(k, v). \<not> isArrayIndex k) ps)"

text \<open>
  The parser proper.  The first argument bounds the depth of the recursion; \<open>json_parse\<close>
  starts it above what an input of that length can need.
\<close>

fun parseValue :: "nat \<Rightarrow> jsstring \<Rightarrow> (json \<times> jsstring) option"
and parseElements :: "nat \<Rightarrow> jsstring \<Rightarrow> (json list \<times> jsstring) option"
and parseMembers :: "nat \<Rightarrow> jsstring \<Rightarrow> ((jsstring \<times> json) list \<times> jsstring) option" where
  "parseValue 0 s = None"
| "parseValue (Suc n) s =
     (case dropWhile isJsonSpace s of
        [] \<Rightarrow> None
      | c # cs \<Rightarrow>
          if c = 0x7B then
            (case dropWhile isJsonSpace cs of
               [] \<Rightarrow> None
             | d # ds \<Rightarrow>
                 if d = 0x7D then Some (JObj [], ds)
                 else map_option (\<lambda>(kvs, r). (JObj (propertyOrder kvs), r)) (parseMembers n (d # ds)))
          else if c = 0x5B then
            (case dropWhile isJsonSpace cs of
               [] \<Rightarrow> None
             | d # ds \<Rightarrow>
                 if d = 0x5D then Some (JArr [], ds)
                 else map_option (\<lambda>(xs, r). (JArr xs, r)) (parseElements n (d # ds)))
          else if c = 0x22 then map_option (\<lambda>(str, r). (JStr str, r)) (parseStringBody cs)
          else if startsWith (c # cs) (js ''true'') then Some (JBool True, drop 4 (c # cs))
          else if startsWith (c # cs) (js ''false'') then Some (JBool False, drop 5 (c # cs))
          else if startsWith (c # cs) (js ''null'') then Some (JNull, drop 4 (c # cs))
          else parseNumber (c # cs))"
| "parseElements 0 s = None"
| "parseElements (Suc n) s =
     (case parseValue n s of
        None \<Rightarrow> None
      | Some (v, r) \<Rightarrow>
          (case dropWhile isJsonSpace r of
             [] \<Rightarrow> None
           | c # cs \<Rightarrow>
               if c = 0x2C then map_option (\<lambda>(vs, r'). (v # vs, r')) (parseElements n cs)
               else if c = 0x5D then Some ([v], cs)
               else None))"
| "parseMembers 0 s = None"
| "parseMembers (Suc n) s =
     (case dropWhile isJsonSpace s of
        [] \<Rightarrow> None
      | c # cs \<Rightarrow>
          if c \<noteq> 0x22 then None
          else
            (case parseStringBody cs of
               None \<Rightarrow> None
             | Some (k, r) \<Rightarrow>
                 (case dropWhile isJsonSpace r of
                    [] \<Rightarrow> None
                  | d # ds \<Rightarrow>
                      if d \<noteq> 0x3A then None
                      else
                        (case parseValue n ds of
                           None \<Rightarrow> None
                         | Some (v, r') \<Rightarrow>
                             (case dropWhile isJsonSpace r' of
                                [] \<Rightarrow> None
                              | x # xs \<Rightarrow>
                                  if x = 0x2C then
                                    map_option (\<lambda>(kvs, r''). ((k, v) # kvs, r'')) (parseMembers n xs)
                                  else if x = 0x7D then Some ([(k, v)], xs)
                                  else None)))))"

definition json_parse :: "jsstring \<Rightarrow> json option" where
  "json_parse s =
     (case parseValue (2 * length s + 2) s of
        None \<Rightarrow> None
      | Some (v, r) \<Rightarrow> if dropWhile isJsonSpace r = [] then Some v else None)"

text \<open>
  A parsed value read at the declared type of a stream chunk, the way the loop reads it:
  with optional chaining, so that a choice without a \<^verbatim>\<open>delta\<close> object has no content, and
  by truthiness, so that a truthy value which is not a string counts as the string
  \<^verbatim>\<open>String\<close> gives for it (the one appended to \<^verbatim>\<open>accumulatedText\<close>).  A value with no
  \<^verbatim>\<open>choices\<close> array makes the read of \<^verbatim>\<open>choices[0]\<close> throw inside \<^verbatim>\<open>try\<close>.
\<close>

fun jsonString :: "json option \<Rightarrow> jsstring option" where
  "jsonString None = None"
| "jsonString (Some (JStr s)) = Some s"
| "jsonString (Some v) = (if truthy v then Some (js_String v) else None)"

definition choiceOfJson :: "json \<Rightarrow> StreamChoice" where
  "choiceOfJson c =
     \<lparr> delta = (case getProp c (js ''delta'') of
                  Some d \<Rightarrow> \<lparr> delta_role = jsonString (getProp d (js ''role'')),
                             delta_content = jsonString (getProp d (js ''content'')) \<rparr>
                | None \<Rightarrow> \<lparr> delta_role = None, delta_content = None \<rparr>),
       sc_finish_reason = jsonString (getProp c (js ''finish_reason'')) \<rparr>"

definition chunkOfJson :: "json \<Rightarrow> OllamaStreamChunk option" where
  "chunkOfJson j =
     (case getProp j (js ''choices'') of
        Some (JArr cs) \<Rightarrow> Some \<lparr> chunk_choices = map choiceOfJson cs \<rparr>
      | _ \<Rightarrow> None)"

definition json_parse_chunk :: "jsstring \<Rightarrow> OllamaStreamChunk option" where
  "json_parse_chunk s = (case json_parse s of None \<Rightarrow> None | Some j \<Rightarrow> chunkOfJson j)"

definition ecma :: builtins where
  "ecma = \<lparr> JSON_parse = json_parse, JSON_stringify = json_stringify, String_of = js_String,
            JSON_parse_chunk = json_parse_chunk \<rparr>"

section \<open>Notions used in the statements\<close>

definition isSystemMessage :: "OllamaMessage \<Rightarrow> bool" where
  "isSystemMessage m \<longleftrightarrow> msg_role m = Some (js ''system'')"

text \<open>The flattened text of one turn.\<close>

definition flatTurn :: "builtins \<Rightarrow> Content \<Rightarrow> jsstring" where
  "flatTurn B c = partsToText B (Some (case parts c of Some ps \<Rightarrow> ps | None \<Rightarrow> []))"

text \<open>The chunk a line of the stream is parsed to, if the loop parses it.\<close>

definition decodeLine :: "builtins \<Rightarrow> jsstring \<Rightarrow> OllamaStreamChunk option" where
  "decodeLine B line =
     (if startsWith line (js ''data: '') \<and> drop 6 line \<noteq> js ''[DONE]''
      then JSON_parse_chunk B (drop 6 line) else None)"

text \<open>The complete lines the loop sees, read after read, from a given buffer.\<close>

fun linesOfReads :: "jsstring \<Rightarrow> jsstring list \<Rightarrow> jsstring list" where
  "linesOfReads buffer [] = []"
| "linesOfReads buffer (val # rest) =
     butlast (splitLines (buffer @ val)) @ linesOfReads (last (splitLines (buffer @ val))) rest"

text \<open>The chunks of a streamed body, in order.\<close>

definition decodedChunks :: "builtins \<Rightarrow> jsstring list \<Rightarrow> OllamaStreamChunk list" where
  "decodedChunks B reads = List.map_filter (decodeLine B) (linesOfReads [] reads)"

text \<open>The text increment of a chunk (empty when it carries none).\<close>

definition chunkContent :: "OllamaStreamChunk \<Rightarrow> jsstring" where
  "chunkContent ch =
     (case chunk_choices ch of [] \<Rightarrow> [] | c # _ \<Rightarrow> orElse (delta_content (delta c)) [])"

text \<open>The chunk signals completion: its finish reason is truthy.\<close>

definition chunkFinished :: "OllamaStreamChunk \<Rightarrow> bool" where
  "chunkFinished ch =
     (case chunk_choices ch of [] \<Rightarrow> False | c # _ \<Rightarrow> truthyS (sc_finish_reason c))"

text \<open>The backend output a sequence of chunks delivers.\<close>

definition backendText :: "OllamaStreamChunk list \<Rightarrow> jsstring" where
  "backendText chunks = concat (map chunkContent chunks)"

text \<open>The text response yielded for a chunk.\<close>

definition chunkTextEvents :: "OllamaStreamChunk \<Rightarrow> GenerateContentResponse list" where
  "chunkTextEvents ch =
     (case chunk_choices ch of
        [] \<Rightarrow> []
      | c # _ \<Rightarrow> if truthyS (delta_content (delta c))
                 then [textEvent (the (delta_content (delta c))) (sc_finish_reason c)] else [])"

text \<open>All parts of a response.\<close>

definition responseParts :: "GenerateContentResponse \<Rightarrow> Part list" where
  "responseParts r =
     concat (map (\<lambda>c. case parts (cand_content c) of Some ps \<Rightarrow> ps | None \<Rightarrow> []) (candidates r))"

text \<open>The text content of a response: its text parts, concatenated.\<close>

definition textOfResponse :: "GenerateContentResponse \<Rightarrow> jsstring" where
  "textOfResponse r = concat (map (\<lambda>p. case ptext p of Some t \<Rightarrow> t | None \<Rightarrow> []) (responseParts r))"

text \<open>A response holds no function-call part.\<close>

definition textOnly :: "GenerateContentResponse \<Rightarrow> bool" where
  "textOnly r = list_all (\<lambda>p. functionCall p = None) (responseParts r)"

text \<open>The loop body over a sequence of parsed chunks.\<close>

fun processChunks ::
    "builtins \<Rightarrow> Tool list option \<Rightarrow> jsstring \<Rightarrow> OllamaStreamChunk list
      \<Rightarrow> jsstring \<times> GenerateContentResponse list \<times> jsstring list" where
  "processChunks B tools acc [] = (acc, [], [])"
| "processChunks B tools acc (ch # rest) =
     (case processChunk B tools acc ch of
        (acc1, ev1, calls1) \<Rightarrow>
          (case processChunks B tools acc1 rest of
             (acc2, ev2, calls2) \<Rightarrow> (acc2, ev1 @ ev2, calls1 @ calls2)))"

text \<open>The declarations the adapter reads: those of the first tool entry.\<close>

definition declaredFunctions :: "Tool list option \<Rightarrow> FunctionDeclaration list option" where
  "declaredFunctions tools =
     (case tools of
        None \<Rightarrow> None
      | Some [] \<Rightarrow> None
      | Some (firstTool # _) \<Rightarrow>
          (case functionDeclarations firstTool of
             KeyValue fds \<Rightarrow> Some fds
           | _ \<Rightarrow> None))"

text \<open>
  No tool entry to read declarations from: the tool list is absent or empty, or its first
  entry has no key \<^verbatim>\<open>functionDeclarations\<close>.
\<close>

definition noToolEntry :: "Tool list option \<Rightarrow> bool" where
  "noToolEntry tools \<longleftrightarrow>
     tools = None \<or> tools = Some []
     \<or> (\<exists>firstTool others. tools = Some (firstTool # others)
                               \<and> functionDeclarations firstTool = KeyAbsent)"

text \<open>The chunks of a sequence that signal completion.\<close>

definition finishedChunks :: "OllamaStreamChunk list \<Rightarrow> OllamaStreamChunk list" where
  "finishedChunks chunks = filter chunkFinished chunks"

text \<open>The text increments of a stream, without the function-call responses, concatenated.\<close>

definition streamedText :: "error + GenerateContentResponse list \<Rightarrow> error + jsstring" where
  "streamedText res = map_sum id (\<lambda>evs. concat (map textOfResponse (filter textOnly evs))) res"

text \<open>The text content of a single-shot result.\<close>

definition singleShotText :: "error + GenerateContentResponse \<Rightarrow> error + jsstring" where
  "singleShotText res = map_sum id textOfResponse res"

text \<open>A string with no brace and no backtick in it.\<close>

definition plainString :: "jsstring \<Rightarrow> bool" where
  "plainString s \<longleftrightarrow> 0x7B \<notin> set s \<and> 0x7D \<notin> set s \<and> 0x60 \<notin> set s"

text \<open>A JSON value in which no string, key or value, has a brace or a backtick.\<close>

fun plain :: "json \<Rightarrow> bool" where
  "plain (JStr s) = plainString s"
| "plain (JArr xs) = (\<forall>x \<in> set xs. plain x)"
| "plain (JObj kvs) = (\<forall>(k, v) \<in> set kvs. plainString k \<and> plain v)"
| "plain _ = True"

text \<open>A stretch of text over which the brace-counting loop, started with a count of at least
  one, runs to the end and leaves the count as it was.\<close>

definition neutral :: "jsstring \<Rightarrow> bool" where
  "neutral s \<longleftrightarrow>
     (\<forall>rest i bc e. 1 \<le> bc \<longrightarrow> braceLoop (s @ rest) i bc e = braceLoop rest (i + length s) bc e)"

text \<open>A code unit that is neither a brace nor a backtick.\<close>

definition safeChar :: "jschar \<Rightarrow> bool" where
  "safeChar c \<longleftrightarrow> c \<noteq> 0x7B \<and> c \<noteq> 0x7D \<and> c \<noteq> 0x60"

subsection \<open>Concrete inputs\<close>

definition listFilesCall :: FunctionCall where
  "listFilesCall = \<lparr> fc_name = Some (JStr (js ''list_files'')),
                      fc_args = Some (JObj [(js ''dir'', JStr (js ''.''))]) \<rparr>"

definition listFilesJson :: jsstring where
  "listFilesJson = js ''{\"tool_call\":{\"name\":\"list_files\",\"arguments\":{\"dir\":\".\"}}}''"

definition fencedListFiles :: jsstring where
  "fencedListFiles = js ''```json'' @ nl @ listFilesJson @ nl @ js ''```''"

text \<open>A tool list of one entry that declares the functions of the given names.\<close>

definition declares :: "string list \<Rightarrow> Tool list option" where
  "declares names =
     Some [\<lparr> functionDeclarations =
               KeyValue (map (\<lambda>n. \<lparr> fd_name = Some (js n), fd_description = None,
                                 fd_parameters = None \<rparr>) names) \<rparr>]"

definition prompt40 :: jsstring where
  "prompt40 = js ''Please list the files in this directory.''"

definition requestNoSystem :: GenerateContentParameters where
  "requestNoSystem =
     \<lparr> req_contents = CLString (js ''list the files''),
       req_config = Some \<lparr> cfg_systemInstruction = Some (SIString []),
                           cfg_tools = declares [''list_files''],
                           cfg_temperature = None, cfg_maxOutputTokens = None \<rparr> \<rparr>"

definition localGenerator :: OllamaContentGenerator where
  "localGenerator = newOllamaContentGenerator (js ''http://localhost:11434/'') (js ''qwen2.5:14b'')"

definition threeTurns :: "Content list" where
  "threeTurns = [userTurn (js ''hi''),
                 \<lparr> role = Some (js ''model''), parts = Some [textPart (js ''hello'')] \<rparr>,
                 \<lparr> role = Some (js ''user''), parts = Some [] \<rparr>]"

definition listFilesPretty :: jsstring where
  "listFilesPretty =
     js ''{'' @ nl
     @ js ''  \"tool_call\": {'' @ nl
     @ js ''    \"name\": \"list_files\",'' @ nl
     @ js ''    \"arguments\": {'' @ nl
     @ js ''      \"dir\": \".\"'' @ nl
     @ js ''    }'' @ nl
     @ js ''  }'' @ nl
     @ js ''}''"

definition chunkJson :: "jsstring \<Rightarrow> jsstring option \<Rightarrow> json" where
  "chunkJson content fr =
     JObj [(js ''choices'',
            JArr [JObj [(js ''delta'', JObj [(js ''content'', JStr content)]),
                        (js ''finish_reason'', case fr of None \<Rightarrow> JNull | Some r \<Rightarrow> JStr r)]])]"

definition sseLine :: "json \<Rightarrow> jsstring" where
  "sseLine j = js ''data: '' @ json_stringify j 0 @ nl"

definition streamResponse :: "jsstring list \<Rightarrow> FetchResponse" where
  "streamResponse reads =
     \<lparr> ok = True, status = 200, body_text = [], body_json = None, body_reads = Some reads \<rparr>"

definition completionResponse :: "jsstring \<Rightarrow> FetchResponse" where
  "completionResponse content =
     \<lparr> ok = True, status = 200, body_text = [],
       body_json = Some \<lparr> choices = [\<lparr> message = \<lparr> cm_role = js ''assistant'', cm_content = content \<rparr>,
                                        cc_finish_reason = js ''stop'' \<rparr>],
                          usage = \<lparr> prompt_tokens = 12, completion_tokens = 18, total_tokens = 30 \<rparr> \<rparr>,
       body_reads = None \<rparr>"

definition requestWith :: "Tool list option \<Rightarrow> GenerateContentParameters" where
  "requestWith tools =
     \<lparr> req_contents = CLString (js ''list the files''),
       req_config = Some \<lparr> cfg_systemInstruction = Some (SIString (js ''You are a helpful agent.'')),
                           cfg_tools = tools, cfg_temperature = None, cfg_maxOutputTokens = None \<rparr> \<rparr>"

definition listFilesHead :: jsstring where
  "listFilesHead = js ''{\"tool_call\":{\"name\":\"list_files\",''"

definition listFilesTail :: jsstring where
  "listFilesTail = js ''\"arguments\":{\"dir\":\".\"}}}''"

definition helloResponse :: GenerateContentResponse where
  "helloResponse =
     \<lparr> candidates = [\<lparr> cand_content = modelTurn [textPart (js ''Hello.'')],
                       finishReason = Some STOP, cand_index = 0 \<rparr>],
       usageMetadata = Some \<lparr> promptTokenCount = 12, candidatesTokenCount = 18,
                              totalTokenCount = 30 \<rparr> \<rparr>"

definition helloStream :: "jsstring list" where
  "helloStream = [sseLine (chunkJson (js ''Hel'') None),
                  sseLine (chunkJson (js ''lo.'') (Some (js ''stop''))) @ js ''data: [DONE]'' @ nl]"

definition textChunk :: "jsstring \<Rightarrow> jsstring option \<Rightarrow> OllamaStreamChunk" where
  "textChunk content fr =
     \<lparr> chunk_choices = [\<lparr> delta = \<lparr> delta_role = None, delta_content = Some content \<rparr>,
                           sc_finish_reason = fr \<rparr>] \<rparr>"

definition toolStream :: "jsstring list" where
  "toolStream = [sseLine (chunkJson listFilesHead None),
                 sseLine (chunkJson listFilesTail (Some (js ''stop''))) @ js ''data: [DONE]'' @ nl]"

definition doubleFinishStream :: "jsstring list" where
  "doubleFinishStream =
     [sseLine (chunkJson listFilesJson (Some (js ''stop'')))
        @ sseLine (chunkJson [] (Some (js ''stop''))) @ js ''data: [DONE]'' @ nl]"

definition writeFileCall :: FunctionCall where
  "writeFileCall = \<lparr> fc_name = Some (JStr (js ''write_file'')),
                      fc_args = Some (JObj [(js ''file_path'', JStr (js ''main.c'')),
                                            (js ''content'', JStr (js ''int main() {''))]) \<rparr>"

text \<open>A tool list whose one entry has no key \<^verbatim>\<open>functionDeclarations\<close>.\<close>

definition keylessTools :: "Tool list option" where
  "keylessTools = Some [\<lparr> functionDeclarations = KeyAbsent \<rparr>]"

text \<open>A tool list whose one entry has the key with the value \<open>undefined\<close>.\<close>

definition undefinedTools :: "Tool list option" where
  "undefinedTools = Some [\<lparr> functionDeclarations = KeyUndefined \<rparr>]"

definition listFilesTextResponse :: GenerateContentResponse where
  "listFilesTextResponse =
     \<lparr> candidates = [\<lparr> cand_content = modelTurn [textPart listFilesJson],
                       finishReason = Some STOP, cand_index = 0 \<rparr>],
       usageMetadata = Some \<lparr> promptTokenCount = 12, candidatesTokenCount = 18,
                              totalTokenCount = 30 \<rparr> \<rparr>"

definition listFilesCallResponse :: GenerateContentResponse where
  "listFilesCallResponse =
     \<lparr> candidates = [\<lparr> cand_content = modelTurn [functionCallPart listFilesCall],
                       finishReason = Some STOP, cand_index = 0 \<rparr>],
       usageMetadata = Some \<lparr> promptTokenCount = 12, candidatesTokenCount = 18,
                              totalTokenCount = 30 \<rparr> \<rparr>"

section \<open>Properties of the auxiliary operations\<close>

lemma ceiling_quarter: "\<lceil>real n / 4\<rceil> = int ((n + 3) div 4)"
proof -
  have "\<lceil>real n / 4\<rceil> = \<lceil>(of_int (int n) :: real) / of_int 4\<rceil>" by simp
  also have "\<dots> = - ((- int n) div 4)" by (simp only: ceiling_divide_eq_div)
  also have "\<dots> = int ((n + 3) div 4)" by linarith
  finally show ?thesis .
qed

lemma countTokensText_string: "countTokensText B \<lparr> ct_contents = CLString s \<rparr> = s"
  by (simp add: countTokensText_def userTurn_def partsToText_def partPieces_def textPart_def)

text \<open>
  C9.  The embedding operation fails for every request; it never returns a result.
\<close>

theorem embedContent_always_fails:
  "embedContent request = Inl EmbedNotImplemented \<and> (\<forall>r. embedContent request \<noteq> Inr r)"
  by (simp add: embedContent_def)

text \<open>
  C8.  The token estimate is the ceiling of a quarter of the length of the flattened text
  of all parts of the request, that is \<open>(length + 3) div 4\<close>, and a request with a longer
  flattened text never gets a smaller estimate.
\<close>

theorem countTokens_estimate:
  "totalTokens (countTokens B request)
     = \<lceil>real (length (partsToText B (Some (concat (map (\<lambda>c. case parts c of Some ps \<Rightarrow> ps | None \<Rightarrow> [])
            (normalizeContents (ct_contents request))))))) / 4\<rceil>
   \<and> totalTokens (countTokens B request) = int ((length (countTokensText B request) + 3) div 4)
   \<and> (length (countTokensText B request) \<le> length (countTokensText B request')
        \<longrightarrow> totalTokens (countTokens B request) \<le> totalTokens (countTokens B request'))"
  by (auto simp add: countTokens_def countTokensText_def ceiling_quarter Let_def intro!: div_le_mono)

theorem countTokens_estimate_witness:
  "length prompt40 = 40
   \<and> length (countTokensText ecma \<lparr> ct_contents = CLString prompt40 \<rparr>)
       \<le> length (countTokensText ecma \<lparr> ct_contents = CLString (prompt40 @ js ''!'') \<rparr>)
   \<and> totalTokens (countTokens ecma \<lparr> ct_contents = CLString prompt40 \<rparr>) = 10
   \<and> totalTokens (countTokens ecma \<lparr> ct_contents = CLString prompt40 \<rparr>)
       \<le> totalTokens (countTokens ecma \<lparr> ct_contents = CLString (prompt40 @ js ''!'') \<rparr>)"
  using countTokens_estimate [of ecma "\<lparr> ct_contents = CLString prompt40 \<rparr>"
          "\<lparr> ct_contents = CLString (prompt40 @ js ''!'') \<rparr>"]
  by (simp add: countTokensText_string prompt40_def js_def)

section \<open>Properties of the message list\<close>

lemma turnMessage_content: "m \<in> set (turnMessage B c) \<Longrightarrow> msg_content m \<noteq> []"
  by (auto simp add: turnMessage_def Let_def split: if_splits)

lemma turnMessages_no_system:
  "\<forall>c \<in> set contents. role c \<noteq> Some (js ''system'') \<Longrightarrow>
   filter isSystemMessage (concat (map (turnMessage B) contents)) = []"
  by (induction contents)
     (auto simp add: turnMessage_def Let_def isSystemMessage_def js_def)

text \<open>
  C7, as the code has it.  The message list is the system message, present only when the
  system text is not empty and then first, followed by the messages of the turns in
  order.  No message has empty content: a turn whose flattened text is empty gives no
  message.  A turn of role \<open>model\<close> gives role \<open>assistant\<close>; any other role is passed
  through.  When no turn has the role \<open>system\<close>, the list has one system message if the
  system text is not empty and none otherwise.  In a request, the system text is the
  flattened system instruction with the tool instructions added.
\<close>

theorem system_message_only_when_text:
  "convertToOllamaMessages B contents si
     = (if systemArgText B si \<noteq> []
        then [\<lparr> msg_role = Some (js ''system''), msg_content = systemArgText B si \<rparr>] else [])
       @ concat (map (turnMessage B) contents)
   \<and> (\<forall>m \<in> set (convertToOllamaMessages B contents si). msg_content m \<noteq> [])
   \<and> (\<forall>c \<in> set contents.
        turnMessage B c
          = (if flatTurn B c = [] then []
             else [\<lparr> msg_role = (if role c = Some (js ''model'') then Some (js ''assistant'')
                                   else role c),
                      msg_content = flatTurn B c \<rparr>]))
   \<and> ((\<forall>c \<in> set contents. role c \<noteq> Some (js ''system'')) \<longrightarrow>
        length (filter isSystemMessage (convertToOllamaMessages B contents si))
          = (if systemArgText B si = [] then 0 else 1))
   \<and> messages (buildOllamaRequest B gen streaming request)
       = (if requestSystemText B request \<noteq> []
          then [\<lparr> msg_role = Some (js ''system''), msg_content = requestSystemText B request \<rparr>]
          else [])
         @ concat (map (turnMessage B) (normalizeContents (req_contents request)))"
proof -
  have a: "convertToOllamaMessages B contents si
     = (if systemArgText B si \<noteq> []
        then [\<lparr> msg_role = Some (js ''system''), msg_content = systemArgText B si \<rparr>] else [])
       @ concat (map (turnMessage B) contents)"
    by (simp add: convertToOllamaMessages_def Let_def)
  have b: "\<forall>m \<in> set (convertToOllamaMessages B contents si). msg_content m \<noteq> []"
    by (auto simp add: a dest: turnMessage_content)
  have c: "\<forall>c \<in> set contents.
        turnMessage B c
          = (if flatTurn B c = [] then []
             else [\<lparr> msg_role = (if role c = Some (js ''model'') then Some (js ''assistant'')
                                   else role c),
                      msg_content = flatTurn B c \<rparr>])"
    by (simp add: turnMessage_def flatTurn_def Let_def)
  have d: "(\<forall>c \<in> set contents. role c \<noteq> Some (js ''system'')) \<longrightarrow>
        length (filter isSystemMessage (convertToOllamaMessages B contents si))
          = (if systemArgText B si = [] then 0 else 1)"
    by (simp add: a turnMessages_no_system isSystemMessage_def)
  have e: "messages (buildOllamaRequest B gen streaming request)
       = (if requestSystemText B request \<noteq> []
          then [\<lparr> msg_role = Some (js ''system''), msg_content = requestSystemText B request \<rparr>]
          else [])
         @ concat (map (turnMessage B) (normalizeContents (req_contents request)))"
    by (simp add: buildOllamaRequest_def convertToOllamaMessages_def Let_def)
  from a b c d e show ?thesis by blast
qed

theorem system_message_only_when_text_witness:
  "list_all (\<lambda>c. role c \<noteq> Some (js ''system'')) threeTurns
   \<and> convertToOllamaMessages ecma threeTurns (Some (SAString (js ''Be brief.'')))
       = [\<lparr> msg_role = Some (js ''system''), msg_content = js ''Be brief.'' \<rparr>,
          \<lparr> msg_role = Some (js ''user''), msg_content = js ''hi'' \<rparr>,
          \<lparr> msg_role = Some (js ''assistant''), msg_content = js ''hello'' \<rparr>]
   \<and> length (filter isSystemMessage
        (convertToOllamaMessages ecma threeTurns (Some (SAString (js ''Be brief.''))))) = 1"
proof -
  have r: "\<forall>c \<in> set threeTurns. role c \<noteq> Some (js ''system'')"
    by (simp add: threeTurns_def userTurn_def js_def)
  have s: "systemArgText ecma (Some (SAString (js ''Be brief.''))) \<noteq> []"
    by (simp add: js_def)
  have t: "concat (map (turnMessage ecma) threeTurns)
       = [\<lparr> msg_role = Some (js ''user''), msg_content = js ''hi'' \<rparr>,
          \<lparr> msg_role = Some (js ''assistant''), msg_content = js ''hello'' \<rparr>]"
    by (simp add: threeTurns_def turnMessage_def userTurn_def partsToText_def partPieces_def
          textPart_def js_def)
  show ?thesis
    using system_message_only_when_text [of ecma threeTurns "Some (SAString (js ''Be brief.''))"] r s t
    by (simp add: isSystemMessage_def js_def list_all_iff)
qed

text \<open>
  Against C7 as stated: with an empty system text and one user turn the list holds the
  user message alone, so there is no system message.
\<close>

theorem no_system_message_counterexample:
  "convertToOllamaMessages ecma [userTurn (js ''hi'')] (Some (SAString []))
     = [\<lparr> msg_role = Some (js ''user''), msg_content = js ''hi'' \<rparr>]"
  by (simp add: convertToOllamaMessages_def turnMessage_def userTurn_def partsToText_def
        partPieces_def textPart_def js_def)

text \<open>
  C10.  When the system instruction of a request is absent or flattens to the empty
  string, no tool instructions are added: the system text stays empty, and the messages
  of the backend request, streaming or not, are the messages of the turns alone, whatever
  tools are declared; none of them is a system message unless a turn has that role.
\<close>

theorem empty_system_text_no_injection:
  assumes "systemTextOf B (case req_config request of None \<Rightarrow> None
                           | Some c \<Rightarrow> cfg_systemInstruction c) = []"
  shows "requestSystemText B request = []
       \<and> messages (buildOllamaRequest B gen streaming request)
           = concat (map (turnMessage B) (normalizeContents (req_contents request)))
       \<and> ((\<forall>c \<in> set (normalizeContents (req_contents request)). role c \<noteq> Some (js ''system''))
            \<longrightarrow> filter isSystemMessage (messages (buildOllamaRequest B gen streaming request)) = [])"
proof -
  have a: "requestSystemText B request = []"
    using assms by (simp add: requestSystemText_def Let_def)
  have b: "messages (buildOllamaRequest B gen streaming request)
           = concat (map (turnMessage B) (normalizeContents (req_contents request)))"
    by (simp add: buildOllamaRequest_def convertToOllamaMessages_def a)
  show ?thesis using a b by (simp add: turnMessages_no_system)
qed

theorem empty_system_text_no_injection_witness:
  "systemTextOf ecma (cfg_systemInstruction (the (req_config requestNoSystem))) = []
   \<and> hasTools (requestTools requestNoSystem)
   \<and> messages (buildOllamaRequest ecma localGenerator True requestNoSystem)
       = [\<lparr> msg_role = Some (js ''user''), msg_content = js ''list the files'' \<rparr>]
   \<and> messages (buildOllamaRequest ecma localGenerator False requestNoSystem)
       = [\<lparr> msg_role = Some (js ''user''), msg_content = js ''list the files'' \<rparr>]"
proof -
  have h: "systemTextOf ecma (case req_config requestNoSystem of None \<Rightarrow> None
                           | Some c \<Rightarrow> cfg_systemInstruction c) = []"
    by (simp add: requestNoSystem_def)
  have t: "concat (map (turnMessage ecma) (normalizeContents (req_contents requestNoSystem)))
       = [\<lparr> msg_role = Some (js ''user''), msg_content = js ''list the files'' \<rparr>]"
    by (simp add: requestNoSystem_def turnMessage_def userTurn_def partsToText_def partPieces_def
          textPart_def js_def)
  show ?thesis
    using empty_system_text_no_injection [OF h, of localGenerator True]
          empty_system_text_no_injection [OF h, of localGenerator False] t
    by (simp add: requestNoSystem_def hasTools_def requestTools_def declares_def)
qed

section \<open>Properties of the flattening of parts\<close>

lemma partsToText_Cons:
  "partsToText B (Some (p # ps)) = concat (partPieces B p) @ partsToText B (Some ps)"
  by (simp add: partsToText_def)

lemma partsToText_append:
  "partsToText B (Some (ps @ qs)) = partsToText B (Some ps) @ partsToText B (Some qs)"
  by (induction ps) (simp_all add: partsToText_Cons, simp add: partsToText_def)

text \<open>
  C3, as the code has it.  A part with no (or an empty) text and a function call is
  flattened to a line feed, the JSON text of \<^verbatim>\<open>{"tool_call": {"name", "arguments"}}\<close> printed
  with an indentation of two spaces, and a line feed, at its place among the other parts.
  No code fence is put around it.
\<close>

theorem functionCall_part_unfenced:
  assumes "\<not> truthyS (ptext part)" and "functionCall part = Some fc"
  shows "partPieces B part = [nl @ JSON_stringify B (toolCallObject fc) 2 @ nl]
       \<and> partsToText B (Some (before @ part # after))
           = partsToText B (Some before) @ nl @ JSON_stringify B (toolCallObject fc) 2 @ nl
             @ partsToText B (Some after)
       \<and> (\<forall>n a. fc_name fc = Some n \<longrightarrow> fc_args fc = Some a \<longrightarrow>
             toolCallObject fc
               = JObj [(js ''tool_call'', JObj [(js ''name'', n), (js ''arguments'', a)])])"
proof -
  have a: "partPieces B part = [nl @ JSON_stringify B (toolCallObject fc) 2 @ nl]"
    using assms by (simp add: partPieces_def)
  have b: "partsToText B (Some (before @ part # after))
           = partsToText B (Some before) @ nl @ JSON_stringify B (toolCallObject fc) 2 @ nl
             @ partsToText B (Some after)"
    by (simp add: partsToText_append partsToText_Cons a)
  show ?thesis using a b by (simp add: toolCallObject_def)
qed

lemma pretty_listFiles: "JSON_stringify ecma (toolCallObject listFilesCall) 2 = listFilesPretty"
  by code_simp

theorem functionCall_part_unfenced_witness:
  "\<not> truthyS (ptext (functionCallPart listFilesCall))
   \<and> functionCall (functionCallPart listFilesCall) = Some listFilesCall
   \<and> partsToText ecma (Some ([textPart (js ''Listing.'')] @ functionCallPart listFilesCall # [textPart (js ''Done.'')]))
       = js ''Listing.'' @ nl @ listFilesPretty @ nl @ js ''Done.''"
proof -
  have h1: "\<not> truthyS (ptext (functionCallPart listFilesCall))"
    by (simp add: functionCallPart_def)
  have h2: "functionCall (functionCallPart listFilesCall) = Some listFilesCall"
    by (simp add: functionCallPart_def)
  have t1: "partsToText ecma (Some [textPart (js ''Listing.'')]) = js ''Listing.''"
    by (simp add: partsToText_def partPieces_def textPart_def js_def)
  have t2: "partsToText ecma (Some [textPart (js ''Done.'')]) = js ''Done.''"
    by (simp add: partsToText_def partPieces_def textPart_def js_def)
  show ?thesis
    using functionCall_part_unfenced [OF h1 h2, of ecma "[textPart (js ''Listing.'')]" "[textPart (js ''Done.'')]"]
      h1 h2 t1 t2 pretty_listFiles
    by simp
qed

text \<open>
  Against C3 as stated: the flattened text of a function call for \<open>list_files\<close> is the bare
  indented JSON between two line feeds, and holds no code fence.
\<close>

theorem functionCall_part_fence_counterexample:
  "partsToText ecma (Some [functionCallPart listFilesCall]) = nl @ listFilesPretty @ nl
   \<and> indexOf (partsToText ecma (Some [functionCallPart listFilesCall])) (js ''```'') = None"
  by code_simp

section \<open>Properties of the extractor\<close>

text \<open>
  C1.  Let the first entry of the tool list declare the functions \<open>fds\<close>.  Then every call
  the extractor returns, on any text, has the name of a declared function; and when the
  JSON object it extracts has a \<^verbatim>\<open>tool_call.name\<close> that is not the name of a declared function,
  the result is none.
\<close>

theorem undeclared_tool_call_rejected:
  assumes "availableTools = Some (firstTool # others)"
      and "functionDeclarations firstTool = KeyValue fds"
  shows "(\<forall>call. parseToolCall B text availableTools = Some call \<longrightarrow>
            (\<exists>s. fc_name call = Some (JStr s) \<and> Some s \<in> set (map fd_name fds)))
       \<and> (\<forall>jsonText parsed tc toolName.
            extractJsonText text = Some jsonText \<longrightarrow> JSON_parse B jsonText = Some parsed \<longrightarrow>
            getProp parsed (js ''tool_call'') = Some tc \<longrightarrow>
            getProp tc (js ''name'') = Some toolName \<longrightarrow>
            (\<forall>s. toolName = JStr s \<longrightarrow> Some s \<notin> set (map fd_name fds)) \<longrightarrow>
            parseToolCall B text availableTools = None)"
proof -
  have acc: "toolNameAccepted availableTools v \<longleftrightarrow> includesName (map fd_name fds) v" for v
    using assms by (simp add: toolNameAccepted_def)
  have inc: "includesName names v \<longleftrightarrow> (\<exists>s. v = JStr s \<and> Some s \<in> set names)" for names v
    by (cases v) auto
  have one: "callOfParsed parsed availableTools = Some call \<Longrightarrow>
               \<exists>s. fc_name call = Some (JStr s) \<and> Some s \<in> set (map fd_name fds)" for parsed call
    by (auto simp add: callOfParsed_def acc inc Let_def split: json.splits option.splits if_splits)
  have two: "getProp parsed (js ''tool_call'') = Some tc \<Longrightarrow> getProp tc (js ''name'') = Some toolName \<Longrightarrow>
             \<forall>s. toolName = JStr s \<longrightarrow> Some s \<notin> set (map fd_name fds) \<Longrightarrow>
             callOfParsed parsed availableTools = None" for parsed tc toolName
    by (auto simp add: callOfParsed_def acc inc Let_def split: json.splits option.splits if_splits)
  show ?thesis
    by (auto simp add: parseToolCall_def split: option.splits if_splits dest: one two)
qed

lemma extract_fenced: "extractJsonText fencedListFiles = Some listFilesJson"
  by code_simp

lemma parse_listFiles:
  "JSON_parse ecma listFilesJson
     = Some (JObj [(js ''tool_call'', JObj [(js ''name'', JStr (js ''list_files'')),
                                           (js ''arguments'', JObj [(js ''dir'', JStr (js ''.''))])])])"
  by code_simp

theorem undeclared_tool_call_rejected_witness:
  "extractJsonText fencedListFiles = Some listFilesJson
   \<and> parseToolCall ecma fencedListFiles (declares [''list_files'']) = Some listFilesCall
   \<and> parseToolCall ecma fencedListFiles (declares [''read_file'', ''write_file'']) = None"
proof -
  define fds where "fds = map (\<lambda>n. \<lparr> fd_name = Some (js n), fd_description = None,
                                 fd_parameters = None \<rparr>) [''read_file'', ''write_file'']"
  have t: "declares [''read_file'', ''write_file'']
             = Some (\<lparr> functionDeclarations = KeyValue fds \<rparr> # [])"
    by (simp add: declares_def fds_def)
  have fd: "functionDeclarations \<lparr> functionDeclarations = KeyValue fds \<rparr> = KeyValue fds"
    by simp
  have g1: "getProp (JObj [(js ''tool_call'', JObj [(js ''name'', JStr (js ''list_files'')),
                                           (js ''arguments'', JObj [(js ''dir'', JStr (js ''.''))])])])
              (js ''tool_call'')
            = Some (JObj [(js ''name'', JStr (js ''list_files'')),
                          (js ''arguments'', JObj [(js ''dir'', JStr (js ''.''))])])"
    by simp
  have g2: "getProp (JObj [(js ''name'', JStr (js ''list_files'')),
                          (js ''arguments'', JObj [(js ''dir'', JStr (js ''.''))])]) (js ''name'')
            = Some (JStr (js ''list_files''))"
    by simp
  have n: "\<forall>s. JStr (js ''list_files'') = JStr s \<longrightarrow> Some s \<notin> set (map fd_name fds)"
    by (simp add: fds_def js_def)
  have ok: "parseToolCall ecma fencedListFiles (declares [''list_files'']) = Some listFilesCall"
    by code_simp
  have "parseToolCall ecma fencedListFiles (declares [''read_file'', ''write_file'']) = None"
    using undeclared_tool_call_rejected [OF t fd, of ecma fencedListFiles]
          extract_fenced parse_listFiles g1 g2 n
    by blast
  then show ?thesis using extract_fenced ok by simp
qed

section \<open>Properties of the response adapter\<close>

lemma processChunk_eq:
  "processChunk B tools acc ch
     = (acc @ chunkContent ch,
        chunkTextEvents ch
          @ (if chunkFinished ch
             then (case fst (runExtractor B tools (acc @ chunkContent ch)) of
                     Some tc \<Rightarrow> [functionCallEvent tc] | None \<Rightarrow> [])
             else []),
        if chunkFinished ch then snd (runExtractor B tools (acc @ chunkContent ch)) else [])"
  by (cases "chunk_choices ch")
     (auto simp add: processChunk_def chunkContent_def chunkTextEvents_def chunkFinished_def
        orElse_def Let_def split: prod.splits option.splits)

lemma processLine_eq:
  "processLine B tools acc line
     = (case decodeLine B line of
          None \<Rightarrow> (acc, [], [])
        | Some ch \<Rightarrow> processChunk B tools acc ch)"
  by (simp add: processLine_def decodeLine_def Let_def)

lemma processLines_eq:
  "processLines B tools acc lines = processChunks B tools acc (List.map_filter (decodeLine B) lines)"
proof (induction lines arbitrary: acc)
  case Nil
  then show ?case by (simp add: List.map_filter_simps)
next
  case (Cons l ls)
  then show ?case
    by (cases "decodeLine B l") (simp_all add: List.map_filter_simps processLine_eq)
qed

lemma processChunks_append:
  "processChunks B tools acc (xs @ ys)
     = (case processChunks B tools acc xs of
          (a1, e1, c1) \<Rightarrow>
            (case processChunks B tools a1 ys of
               (a2, e2, c2) \<Rightarrow> (a2, e1 @ e2, c1 @ c2)))"
  by (induction xs arbitrary: acc) (auto split: prod.splits)

lemma map_filter_append: "List.map_filter f (xs @ ys) = List.map_filter f xs @ List.map_filter f ys"
  by (simp add: List.map_filter_def)

lemma splitLines_nonempty: "splitLines s \<noteq> []"
  by (induction s) (auto split: list.splits)

lemma readLoop_eq:
  "readLoop B tools buffer acc reads
     = (case processChunks B tools acc (List.map_filter (decodeLine B) (linesOfReads buffer reads)) of
          (a, e, c) \<Rightarrow> (e, c))"
proof (induction reads arbitrary: buffer acc)
  case Nil
  then show ?case by (simp add: List.map_filter_simps)
next
  case (Cons v rest)
  show ?case
    by (simp add: Let_def splitLines_nonempty Cons.IH processLines_eq map_filter_append
          processChunks_append split: prod.splits)
qed

lemma processChunks_Cons:
  "processChunks B tools acc (ch # rest)
     = (fst (processChunks B tools (acc @ chunkContent ch) rest),
        fst (snd (processChunk B tools acc ch))
          @ fst (snd (processChunks B tools (acc @ chunkContent ch) rest)),
        snd (snd (processChunk B tools acc ch))
          @ snd (snd (processChunks B tools (acc @ chunkContent ch) rest)))"
  by (simp add: processChunk_eq split: prod.splits)

lemma processChunks_acc:
  "fst (processChunks B tools acc chunks) = acc @ backendText chunks"
proof (induction chunks arbitrary: acc)
  case Nil
  then show ?case by (simp add: backendText_def)
next
  case (Cons ch rest)
  show ?case
    using Cons.IH [of "acc @ chunkContent ch"]
    by (simp add: processChunks_Cons backendText_def del: processChunks.simps)
qed

lemma textOfResponse_textEvent: "textOfResponse (textEvent s fr) = s"
  by (simp add: textOfResponse_def responseParts_def textEvent_def modelTurn_def textPart_def)

lemma textOfResponse_functionCallEvent: "textOfResponse (functionCallEvent fc) = []"
  by (simp add: textOfResponse_def responseParts_def functionCallEvent_def modelTurn_def
        functionCallPart_def)

lemma textOnly_textEvent: "textOnly (textEvent s fr)"
  by (simp add: textOnly_def responseParts_def textEvent_def modelTurn_def textPart_def)

lemma not_textOnly_functionCallEvent: "\<not> textOnly (functionCallEvent fc)"
  by (simp add: textOnly_def responseParts_def functionCallEvent_def modelTurn_def
        functionCallPart_def)

lemma chunkTextEvents_text: "concat (map textOfResponse (chunkTextEvents ch)) = chunkContent ch"
  by (cases "chunk_choices ch")
     (auto simp add: chunkTextEvents_def chunkContent_def orElse_def textOfResponse_textEvent)

lemma chunkTextEvents_textOnly: "list_all textOnly (chunkTextEvents ch)"
  by (cases "chunk_choices ch") (auto simp add: chunkTextEvents_def textOnly_textEvent)

lemma processChunk_text:
  "concat (map textOfResponse (fst (snd (processChunk B tools acc ch)))) = chunkContent ch"
proof (cases "fst (runExtractor B tools (acc @ chunkContent ch))")
  case None
  then show ?thesis
    apply (simp add: processChunk_eq)
    apply (simp add: chunkTextEvents_text)
    done
next
  case (Some tc)
  then show ?thesis
    apply (simp add: processChunk_eq)
    apply (simp add: chunkTextEvents_text textOfResponse_functionCallEvent)
    done
qed

lemma processChunks_text:
  "concat (map textOfResponse (fst (snd (processChunks B tools acc chunks)))) = backendText chunks"
proof (induction chunks arbitrary: acc)
  case Nil
  then show ?case by (simp add: backendText_def)
next
  case (Cons ch rest)
  show ?case
    using Cons.IH [of "acc @ chunkContent ch"] processChunk_text [of B tools acc ch]
    by (simp add: processChunks_Cons backendText_def del: processChunks.simps)
qed

lemma processChunks_unfinished:
  "list_all (\<lambda>c. \<not> chunkFinished c) cs \<Longrightarrow>
   processChunks B tools acc cs = (acc @ backendText cs, concat (map chunkTextEvents cs), [])"
  by (induction cs arbitrary: acc) (auto simp add: backendText_def processChunk_eq)

lemma noToolEntry_iff: "noToolEntry tools \<longleftrightarrow> \<not> hasTools tools"
  by (auto simp add: noToolEntry_def hasTools_def split: option.splits list.splits)

lemma declared_hasTools: "declaredFunctions tools = Some fds \<Longrightarrow> hasTools tools"
  by (auto simp add: declaredFunctions_def hasTools_def
        split: option.splits list.splits optionalKey.splits)

lemma runExtractor_no_tools: "\<not> hasTools tools \<Longrightarrow> runExtractor B tools s = (None, [])"
  by (simp add: runExtractor_def)

lemma runExtractor_calls: "hasTools tools \<Longrightarrow> snd (runExtractor B tools s) = [s]"
  by (simp add: runExtractor_def)

lemma includesName_Nil: "\<not> includesName [] v"
  by (cases v) simp_all

lemma callOfParsed_none_declared:
  "declaredFunctions tools = Some [] \<Longrightarrow> callOfParsed parsed tools = None"
  by (auto simp add: callOfParsed_def declaredFunctions_def toolNameAccepted_def Let_def
        includesName_Nil split: json.splits option.splits list.splits optionalKey.splits)

lemma runExtractor_none_declared:
  "declaredFunctions tools = Some [] \<Longrightarrow> fst (runExtractor B tools s) = None"
  by (auto simp add: runExtractor_def parseToolCall_def callOfParsed_none_declared
        split: option.splits)

lemma textOnly_single:
  "choices ollamaResponse = choice # others \<Longrightarrow> fst (runExtractor B tools (cm_content (message choice))) = None \<Longrightarrow>
   convertToGeminiResponse_traced B ollamaResponse tools = Inr (r, calls) \<Longrightarrow>
   textOnly r \<and> textOfResponse r = cm_content (message choice)"
  by (auto simp add: convertToGeminiResponse_traced_def Let_def textOnly_def textOfResponse_def
        responseParts_def modelTurn_def textPart_def split: prod.splits)

lemma calls_single:
  "convertToGeminiResponse_traced B ollamaResponse tools = Inr (r, calls) \<Longrightarrow>
   length calls = (if hasTools tools then 1 else 0)"
  by (auto simp add: convertToGeminiResponse_traced_def Let_def runExtractor_def
        split: list.splits)

lemma processChunks_text_only:
  "\<forall>s. fst (runExtractor B tools s) = None \<Longrightarrow>
   list_all textOnly (fst (snd (processChunks B tools acc chunks)))"
proof (induction chunks arbitrary: acc)
  case Nil
  then show ?case by simp
next
  case (Cons ch rest)
  have "list_all textOnly (fst (snd (processChunk B tools acc ch)))"
    using Cons.prems by (simp add: processChunk_eq chunkTextEvents_textOnly)
  then show ?case
    using Cons.IH [OF Cons.prems, of "acc @ chunkContent ch"]
    by (simp add: processChunks_Cons del: processChunks.simps)
qed

lemma processChunks_calls:
  "length (snd (snd (processChunks B tools acc chunks)))
     = (if hasTools tools then length (finishedChunks chunks) else 0)"
proof (induction chunks arbitrary: acc)
  case Nil
  then show ?case by (simp add: finishedChunks_def)
next
  case (Cons ch rest)
  have "length (snd (snd (processChunk B tools acc ch)))
          = (if hasTools tools \<and> chunkFinished ch then 1 else 0)"
    by (simp add: processChunk_eq runExtractor_def)
  then show ?case
    using Cons.IH [of "acc @ chunkContent ch"]
    by (simp add: processChunks_Cons finishedChunks_def del: processChunks.simps)
qed

lemma readLoop_events:
  "fst (readLoop B tools buffer acc reads)
     = fst (snd (processChunks B tools acc (List.map_filter (decodeLine B) (linesOfReads buffer reads))))"
  by (simp add: readLoop_eq split: prod.splits)

lemma readLoop_calls:
  "snd (readLoop B tools buffer acc reads)
     = snd (snd (processChunks B tools acc (List.map_filter (decodeLine B) (linesOfReads buffer reads))))"
  by (simp add: readLoop_eq split: prod.splits)

lemma single_traced:
  assumes "generateContent_traced B request fetched = Inr (r, calls)"
  shows "length calls = (if hasTools (requestTools request) then 1 else 0)
       \<and> ((\<forall>s. fst (runExtractor B (requestTools request) s) = None) \<longrightarrow> textOnly r)"
proof -
  from assms obtain ollamaResponse where
    c: "convertToGeminiResponse_traced B ollamaResponse (requestTools request) = Inr (r, calls)"
    by (auto simp add: generateContent_traced_def split: sum.splits if_splits option.splits)
  then obtain choice others where ch: "choices ollamaResponse = choice # others"
    by (cases "choices ollamaResponse") (auto simp add: convertToGeminiResponse_traced_def)
  have "textOnly r" if "\<forall>s. fst (runExtractor B (requestTools request) s) = None"
  proof -
    from that have "fst (runExtractor B (requestTools request) (cm_content (message choice))) = None"
      by simp
    from textOnly_single [OF ch this c] show ?thesis by simp
  qed
  then show ?thesis using calls_single [OF c] by simp
qed

lemma stream_traced:
  assumes "generateContentStream_traced B request fetched = Inr (evs, calls)"
  shows "\<exists>response reads. fetched = Inr response \<and> body_reads response = Some reads
           \<and> evs = fst (snd (processChunks B (requestTools request) [] (decodedChunks B reads)))
           \<and> calls = snd (snd (processChunks B (requestTools request) [] (decodedChunks B reads)))"
proof -
  from assms obtain response reads where
    f: "fetched = Inr response" and b: "body_reads response = Some reads"
    and l: "readLoop B (requestTools request) [] [] reads = (evs, calls)"
    by (auto simp add: generateContentStream_traced_def split: sum.splits if_splits option.splits)
  from l have "evs = fst (readLoop B (requestTools request) [] [] reads)"
    and "calls = snd (readLoop B (requestTools request) [] [] reads)"
    by simp_all
  then show ?thesis using f b by (simp add: readLoop_events readLoop_calls decodedChunks_def)
qed

text \<open>
  C6, as the code has it.  When the tool list of a request is absent or empty, or its
  first entry has no key \<^verbatim>\<open>functionDeclarations\<close>, the extractor is never invoked and every
  response, single-shot or streamed, holds text parts only.  When the first entry declares
  an empty list of functions, the extractor is invoked, once on the content of a
  completion and once at every chunk of a stream that signals completion, and every
  response still holds text parts only.
\<close>

theorem no_tools_text_only:
  "(noToolEntry (requestTools request) \<longrightarrow>
      (\<forall>r calls. generateContent_traced B request fetched = Inr (r, calls) \<longrightarrow>
          calls = [] \<and> textOnly r)
    \<and> (\<forall>evs calls. generateContentStream_traced B request fetched = Inr (evs, calls) \<longrightarrow>
          calls = [] \<and> list_all textOnly evs))
   \<and> (declaredFunctions (requestTools request) = Some [] \<longrightarrow>
      (\<forall>r calls. generateContent_traced B request fetched = Inr (r, calls) \<longrightarrow>
          length calls = 1 \<and> textOnly r)
    \<and> (\<forall>response reads evs calls.
          fetched = Inr response \<longrightarrow> body_reads response = Some reads \<longrightarrow>
          generateContentStream_traced B request fetched = Inr (evs, calls) \<longrightarrow>
          length calls = length (finishedChunks (decodedChunks B reads))
          \<and> list_all textOnly evs))"
proof -
  let ?tools = "requestTools request"
  have a: "\<forall>s. fst (runExtractor B ?tools s) = None" if "noToolEntry ?tools"
    using that by (simp add: noToolEntry_iff runExtractor_no_tools)
  have b: "\<forall>s. fst (runExtractor B ?tools s) = None" if "declaredFunctions ?tools = Some []"
    using that by (simp add: runExtractor_none_declared)
  have s0: "calls = [] \<and> textOnly r"
    if "noToolEntry ?tools" and "generateContent_traced B request fetched = Inr (r, calls)"
    for r calls
    using single_traced [OF that(2)] a [OF that(1)] that(1) by (simp add: noToolEntry_iff)
  have s1: "length calls = 1 \<and> textOnly r"
    if "declaredFunctions ?tools = Some []"
      and "generateContent_traced B request fetched = Inr (r, calls)"
    for r calls
    using single_traced [OF that(2)] b [OF that(1)] declared_hasTools [OF that(1)] by simp
  have t0: "calls = [] \<and> list_all textOnly evs"
    if n: "noToolEntry ?tools"
      and g: "generateContentStream_traced B request fetched = Inr (evs, calls)"
    for evs calls
  proof -
    from stream_traced [OF g] obtain reads where
      e: "evs = fst (snd (processChunks B ?tools [] (decodedChunks B reads)))"
      and c: "calls = snd (snd (processChunks B ?tools [] (decodedChunks B reads)))"
      by blast
    have "length calls = 0"
      using n unfolding c processChunks_calls by (simp add: noToolEntry_iff)
    then show ?thesis using processChunks_text_only [OF a [OF n]] e by simp
  qed
  have t1: "length calls = length (finishedChunks (decodedChunks B reads)) \<and> list_all textOnly evs"
    if d: "declaredFunctions ?tools = Some []"
      and f: "fetched = Inr response" "body_reads response = Some reads"
      and g: "generateContentStream_traced B request fetched = Inr (evs, calls)"
    for response reads evs calls
  proof -
    from stream_traced [OF g] f have
      e: "evs = fst (snd (processChunks B ?tools [] (decodedChunks B reads)))"
      and c: "calls = snd (snd (processChunks B ?tools [] (decodedChunks B reads)))"
      by auto
    have "length calls = length (finishedChunks (decodedChunks B reads))"
      unfolding c processChunks_calls using declared_hasTools [OF d] by simp
    then show ?thesis using processChunks_text_only [OF b [OF d]] e by simp
  qed
  show ?thesis
    using s0 s1 t0 t1 by blast
qed

lemma keyless_single:
  "generateContent_traced ecma (requestWith keylessTools) (Inr (completionResponse listFilesJson))
     = Inr (listFilesTextResponse, [])"
  by code_simp

lemma keyless_stream:
  "generateContentStream_traced ecma (requestWith keylessTools) (Inr (streamResponse toolStream))
     = Inr ([textEvent listFilesHead None, textEvent listFilesTail (Some (js ''stop''))], [])"
  by code_simp

lemma empty_declared_single:
  "generateContent_traced ecma (requestWith (declares [])) (Inr (completionResponse listFilesJson))
     = Inr (listFilesTextResponse, [listFilesJson])"
  by code_simp

theorem no_tools_text_only_witness:
  "noToolEntry (requestTools (requestWith keylessTools))
   \<and> generateContent_traced ecma (requestWith keylessTools) (Inr (completionResponse listFilesJson))
       = Inr (listFilesTextResponse, [])
   \<and> textOnly listFilesTextResponse
   \<and> generateContentStream_traced ecma (requestWith keylessTools) (Inr (streamResponse toolStream))
       = Inr ([textEvent listFilesHead None, textEvent listFilesTail (Some (js ''stop''))], [])
   \<and> list_all textOnly [textEvent listFilesHead None, textEvent listFilesTail (Some (js ''stop''))]
   \<and> declaredFunctions (requestTools (requestWith (declares []))) = Some []
   \<and> generateContent_traced ecma (requestWith (declares [])) (Inr (completionResponse listFilesJson))
       = Inr (listFilesTextResponse, [listFilesJson])"
proof -
  have n: "noToolEntry (requestTools (requestWith keylessTools))"
    by (simp add: requestWith_def requestTools_def noToolEntry_def keylessTools_def)
  have d: "declaredFunctions (requestTools (requestWith (declares []))) = Some []"
    by (simp add: requestWith_def requestTools_def declaredFunctions_def declares_def)
  have a: "textOnly listFilesTextResponse"
    using no_tools_text_only [of "requestWith keylessTools" ecma
            "Inr (completionResponse listFilesJson)"] n keyless_single
    by blast
  have b: "list_all textOnly [textEvent listFilesHead None, textEvent listFilesTail (Some (js ''stop''))]"
    using no_tools_text_only [of "requestWith keylessTools" ecma "Inr (streamResponse toolStream)"]
          n keyless_stream
    by blast
  show ?thesis using n d a b keyless_single keyless_stream empty_declared_single by simp
qed

text \<open>
  Against C6 as stated: a request whose first tool entry declares an empty list of
  functions has no declared tool, and the single-shot path still invokes the extractor,
  on the content of the completion.
\<close>

theorem extractor_invoked_counterexample:
  "declaredFunctions (requestTools (requestWith (declares []))) = Some []
   \<and> generateContent_traced ecma (requestWith (declares [])) (Inr (completionResponse (js ''Hello.'')))
       = Inr (helloResponse, [js ''Hello.''])"
  by code_simp

text \<open>
  The adapter's guard asks for the key only, the validation for the key and a truthy
  value.  With a first entry whose key is present and holds \<open>undefined\<close> nothing is
  declared, the extractor is invoked and nothing is validated: the call in the content is
  returned as a function-call part.
\<close>

lemma undefined_declarations_unvalidated:
  "declaredFunctions (requestTools (requestWith undefinedTools)) = None
   \<and> hasTools (requestTools (requestWith undefinedTools))
   \<and> generateContent_traced ecma (requestWith undefinedTools) (Inr (completionResponse listFilesJson))
       = Inr (listFilesCallResponse, [listFilesJson])
   \<and> \<not> textOnly listFilesCallResponse"
  by code_simp

lemma processChunk_events_cases:
  "fst (snd (processChunk B tools acc ch)) = chunkTextEvents ch
   \<or> (\<exists>tc. fst (snd (processChunk B tools acc ch)) = chunkTextEvents ch @ [functionCallEvent tc])"
  by (cases "chunkFinished ch"; cases "fst (runExtractor B tools (acc @ chunkContent ch))")
     (auto simp add: processChunk_eq)

lemma processChunk_filter_text:
  "concat (map textOfResponse (filter textOnly (fst (snd (processChunk B tools acc ch)))))
     = chunkContent ch"
proof -
  have f: "filter textOnly (chunkTextEvents ch) = chunkTextEvents ch"
    using chunkTextEvents_textOnly [of ch] by (simp add: list_all_iff)
  from processChunk_events_cases [of B tools acc ch] show ?thesis
  proof
    assume "fst (snd (processChunk B tools acc ch)) = chunkTextEvents ch"
    then show ?thesis by (simp add: f chunkTextEvents_text)
  next
    assume "\<exists>tc. fst (snd (processChunk B tools acc ch)) = chunkTextEvents ch @ [functionCallEvent tc]"
    then obtain tc where
      "fst (snd (processChunk B tools acc ch)) = chunkTextEvents ch @ [functionCallEvent tc]" ..
    then show ?thesis
      by (simp add: f chunkTextEvents_text not_textOnly_functionCallEvent)
  qed
qed

lemma events_filter_text:
  "concat (map textOfResponse (filter textOnly (fst (snd (processChunks B tools acc chunks)))))
     = backendText chunks"
proof (induction chunks arbitrary: acc)
  case Nil
  then show ?case by (simp add: backendText_def)
next
  case (Cons ch rest)
  show ?case
    using Cons.IH [of "acc @ chunkContent ch"] processChunk_filter_text [of B tools acc ch]
    by (simp add: processChunks_Cons backendText_def del: processChunks.simps)
qed

lemma stream_events:
  assumes "ok response" and "body_reads response = Some reads"
  shows "generateContentStream B request (Inr response)
           = Inr (fst (snd (processChunks B (requestTools request) [] (decodedChunks B reads))))"
  using assms
  by (simp add: generateContentStream_def generateContentStream_traced_def decodedChunks_def
        readLoop_eq split: prod.splits)

lemma single_text:
  assumes "ok response" and "body_json response = Some ollamaResponse"
      and "choices ollamaResponse = choice # others"
  shows "singleShotText (generateContent B request (Inr response))
           = Inr (if fst (runExtractor B (requestTools request) (cm_content (message choice))) = None
                  then cm_content (message choice) else [])"
  using assms
  by (auto simp add: singleShotText_def generateContent_def generateContent_traced_def
        convertToGeminiResponse_traced_def Let_def textOfResponse_def responseParts_def
        modelTurn_def textPart_def functionCallPart_def split: prod.splits option.splits)

text \<open>
  C5, as the code has it.  The text increments of a stream, concatenated, are the backend
  output (the contents of its chunks).  For a completion with that same content the
  single-shot response has it as its text exactly when no tool call is extracted from it;
  when one is extracted the single-shot response has no text at all.
\<close>

theorem stream_text_is_backend_content:
  assumes "ok response" and "body_reads response = Some reads"
  shows "streamedText (generateContentStream B request (Inr response))
           = Inr (backendText (decodedChunks B reads))
       \<and> (\<forall>response' ollamaResponse choice others.
            ok response' \<longrightarrow> body_json response' = Some ollamaResponse \<longrightarrow>
            choices ollamaResponse = choice # others \<longrightarrow>
            cm_content (message choice) = backendText (decodedChunks B reads) \<longrightarrow>
            singleShotText (generateContent B request (Inr response'))
              = Inr (if fst (runExtractor B (requestTools request) (cm_content (message choice))) = None
                     then backendText (decodedChunks B reads) else []))"
proof -
  have a: "streamedText (generateContentStream B request (Inr response))
           = Inr (backendText (decodedChunks B reads))"
    by (simp add: stream_events [OF assms] streamedText_def events_filter_text)
  show ?thesis using a by (auto simp add: single_text)
qed

text \<open>
  C4, as the code has it.  Let the last chunk of a stream carry a finish reason that is not
  empty, and no chunk before it carry one.  If tools are declared and the extractor finds
  a call in the whole accumulated text, the responses are the text increments followed by
  exactly one function-call response; otherwise they are the text increments alone.
\<close>

theorem stream_override_single_finish:
  assumes "ok response" and "body_reads response = Some reads"
      and "decodedChunks B reads = cs @ [final]"
      and "list_all (\<lambda>c. \<not> chunkFinished c) cs" and "chunkFinished final"
  shows "(\<forall>call. hasTools (requestTools request) \<longrightarrow>
            parseToolCall B (backendText (cs @ [final])) (requestTools request) = Some call \<longrightarrow>
            generateContentStream B request (Inr response)
              = Inr (concat (map chunkTextEvents (cs @ [final])) @ [functionCallEvent call]))
       \<and> (\<not> hasTools (requestTools request)
            \<or> parseToolCall B (backendText (cs @ [final])) (requestTools request) = None \<longrightarrow>
            generateContentStream B request (Inr response)
              = Inr (concat (map chunkTextEvents (cs @ [final]))))
       \<and> list_all textOnly (concat (map chunkTextEvents (cs @ [final])))
       \<and> (\<forall>call. \<not> textOnly (functionCallEvent call))"
proof -
  let ?tools = "requestTools request"
  have p: "fst (snd (processChunks B ?tools [] (cs @ [final])))
             = concat (map chunkTextEvents (cs @ [final]))
               @ (case fst (runExtractor B ?tools (backendText (cs @ [final]))) of
                    Some tc \<Rightarrow> [functionCallEvent tc] | None \<Rightarrow> [])"
    using assms(4,5)
    by (simp add: processChunks_append processChunks_unfinished processChunk_eq backendText_def)
  have e: "generateContentStream B request (Inr response)
             = Inr (concat (map chunkTextEvents (cs @ [final]))
               @ (case fst (runExtractor B ?tools (backendText (cs @ [final]))) of
                    Some tc \<Rightarrow> [functionCallEvent tc] | None \<Rightarrow> []))"
    using stream_events [OF assms(1,2)] assms(3) p by simp
  have t: "list_all textOnly (concat (map chunkTextEvents (cs @ [final])))"
    using chunkTextEvents_textOnly by (simp add: list_all_iff) blast
  show ?thesis
    using e t by (auto simp add: runExtractor_def not_textOnly_functionCallEvent)
qed

lemma toolStream_chunks:
  "decodedChunks ecma toolStream
     = [textChunk listFilesHead None] @ [textChunk listFilesTail (Some (js ''stop''))]"
  by code_simp

lemma toolStream_call:
  "parseToolCall ecma
     (backendText ([textChunk listFilesHead None] @ [textChunk listFilesTail (Some (js ''stop''))]))
     (requestTools (requestWith (declares [''list_files''])))
   = Some listFilesCall"
  by code_simp

theorem stream_override_single_finish_witness:
  "decodedChunks ecma toolStream
     = [textChunk listFilesHead None] @ [textChunk listFilesTail (Some (js ''stop''))]
   \<and> \<not> chunkFinished (textChunk listFilesHead None)
   \<and> chunkFinished (textChunk listFilesTail (Some (js ''stop'')))
   \<and> generateContentStream ecma (requestWith (declares [''list_files'']))
        (Inr (streamResponse toolStream))
       = Inr [textEvent listFilesHead None, textEvent listFilesTail (Some (js ''stop'')),
              functionCallEvent listFilesCall]"
proof -
  have h1: "ok (streamResponse toolStream)" by (simp add: streamResponse_def)
  have h2: "body_reads (streamResponse toolStream) = Some toolStream"
    by (simp add: streamResponse_def)
  have h4: "list_all (\<lambda>c. \<not> chunkFinished c) [textChunk listFilesHead None]"
    by (simp add: chunkFinished_def textChunk_def)
  have h5: "chunkFinished (textChunk listFilesTail (Some (js ''stop'')))"
    by (simp add: chunkFinished_def textChunk_def js_def)
  have t: "hasTools (requestTools (requestWith (declares [''list_files''])))"
    by (simp add: hasTools_def requestTools_def requestWith_def declares_def)
  have e: "concat (map chunkTextEvents
             ([textChunk listFilesHead None] @ [textChunk listFilesTail (Some (js ''stop''))]))
           = [textEvent listFilesHead None, textEvent listFilesTail (Some (js ''stop''))]"
    by (simp add: chunkTextEvents_def textChunk_def listFilesHead_def listFilesTail_def js_def)
  have "generateContentStream ecma (requestWith (declares [''list_files'']))
        (Inr (streamResponse toolStream))
       = Inr (concat (map chunkTextEvents
             ([textChunk listFilesHead None] @ [textChunk listFilesTail (Some (js ''stop''))]))
              @ [functionCallEvent listFilesCall])"
    using stream_override_single_finish [OF h1 h2 toolStream_chunks h4 h5,
            of "requestWith (declares [''list_files''])"] t toolStream_call
    by blast
  then show ?thesis using toolStream_chunks h4 h5 e by simp
qed

text \<open>
  Against C4 as stated: the extractor runs at every chunk that carries a finish reason.
  Here two chunks carry one; the accumulated text is a declared call at the end and the
  last chunk has a finish reason, yet two function-call responses are yielded.
\<close>

theorem two_finish_chunks_counterexample:
  "decodedChunks ecma doubleFinishStream
     = [textChunk listFilesJson (Some (js ''stop'')), textChunk [] (Some (js ''stop''))]
   \<and> parseToolCall ecma (backendText (decodedChunks ecma doubleFinishStream))
         (declares [''list_files'']) = Some listFilesCall
   \<and> generateContentStream ecma (requestWith (declares [''list_files'']))
        (Inr (streamResponse doubleFinishStream))
       = Inr [textEvent listFilesJson (Some (js ''stop'')),
              functionCallEvent listFilesCall, functionCallEvent listFilesCall]"
  by code_simp

lemma helloStream_text: "backendText (decodedChunks ecma helloStream) = js ''Hello.''"
  by code_simp

lemma hello_no_call:
  "fst (runExtractor ecma (requestTools (requestWith (declares [''list_files''])))
          (js ''Hello.'')) = None"
  by code_simp

theorem stream_text_is_backend_content_witness:
  "streamedText (generateContentStream ecma (requestWith (declares [''list_files'']))
      (Inr (streamResponse helloStream))) = Inr (js ''Hello.'')
   \<and> singleShotText (generateContent ecma (requestWith (declares [''list_files'']))
      (Inr (completionResponse (js ''Hello.'')))) = Inr (js ''Hello.'')"
proof -
  have h1: "ok (streamResponse helloStream)" by (simp add: streamResponse_def)
  have h2: "body_reads (streamResponse helloStream) = Some helloStream"
    by (simp add: streamResponse_def)
  have s1: "ok (completionResponse (js ''Hello.''))" by (simp add: completionResponse_def)
  have s2: "body_json (completionResponse (js ''Hello.''))
      = Some \<lparr> choices = [\<lparr> message = \<lparr> cm_role = js ''assistant'', cm_content = js ''Hello.'' \<rparr>,
                                        cc_finish_reason = js ''stop'' \<rparr>],
                          usage = \<lparr> prompt_tokens = 12, completion_tokens = 18, total_tokens = 30 \<rparr> \<rparr>"
    by (simp add: completionResponse_def)
  have s3: "choices \<lparr> choices = [\<lparr> message = \<lparr> cm_role = js ''assistant'', cm_content = js ''Hello.'' \<rparr>,
                                        cc_finish_reason = js ''stop'' \<rparr>],
                          usage = \<lparr> prompt_tokens = 12, completion_tokens = 18, total_tokens = 30 \<rparr> \<rparr>
      = \<lparr> message = \<lparr> cm_role = js ''assistant'', cm_content = js ''Hello.'' \<rparr>,
                                        cc_finish_reason = js ''stop'' \<rparr> # []"
    by simp
  have s4: "cm_content (message \<lparr> message = \<lparr> cm_role = js ''assistant'', cm_content = js ''Hello.'' \<rparr>,
                                        cc_finish_reason = js ''stop'' \<rparr>)
             = backendText (decodedChunks ecma helloStream)"
    by (simp add: helloStream_text)
  note th = stream_text_is_backend_content [OF h1 h2, of ecma "requestWith (declares [''list_files''])"]
  from th have a: "streamedText (generateContentStream ecma (requestWith (declares [''list_files'']))
      (Inr (streamResponse helloStream))) = Inr (js ''Hello.'')"
    by (simp add: helloStream_text)
  from th s1 s2 s3 s4 have "singleShotText (generateContent ecma (requestWith (declares [''list_files'']))
      (Inr (completionResponse (js ''Hello.''))))
     = Inr (if fst (runExtractor ecma (requestTools (requestWith (declares [''list_files''])))
                (cm_content (message \<lparr> message = \<lparr> cm_role = js ''assistant'', cm_content = js ''Hello.'' \<rparr>,
                                        cc_finish_reason = js ''stop'' \<rparr>))) = None
            then backendText (decodedChunks ecma helloStream) else [])"
    by blast
  then have b: "singleShotText (generateContent ecma (requestWith (declares [''list_files'']))
      (Inr (completionResponse (js ''Hello.'')))) = Inr (js ''Hello.'')"
    using hello_no_call by (simp add: helloStream_text)
  from a b show ?thesis by simp
qed

text \<open>
  Against C5 as stated: for a backend output that is a declared tool call, the streamed
  text increments concatenate to that output while the single-shot response has no text.
\<close>

theorem single_shot_has_no_text_counterexample:
  "backendText (decodedChunks ecma toolStream) = listFilesJson
   \<and> streamedText (generateContentStream ecma (requestWith (declares [''list_files'']))
        (Inr (streamResponse toolStream))) = Inr listFilesJson
   \<and> singleShotText (generateContent ecma (requestWith (declares [''list_files'']))
        (Inr (completionResponse listFilesJson))) = Inr []"
  by code_simp

section \<open>The round trip through the flattened text\<close>

lemma braceLoop_braceFree:
  "0x7B \<notin> set s \<Longrightarrow> 0x7D \<notin> set s \<Longrightarrow>
   braceLoop (s @ rest) i bc e = braceLoop rest (i + length s) bc e"
  by (induction s arbitrary: i) auto

lemma neutral_braceFree: "0x7B \<notin> set s \<Longrightarrow> 0x7D \<notin> set s \<Longrightarrow> neutral s"
  by (simp add: neutral_def braceLoop_braceFree)

lemma neutral_Nil: "neutral []"
  by (simp add: neutral_def)

lemma neutral_append: "neutral s \<Longrightarrow> neutral t \<Longrightarrow> neutral (s @ t)"
  by (simp add: neutral_def add.assoc)

lemma neutral_braces:
  assumes "neutral s"
  shows "neutral ([0x7B] @ s @ [0x7D])"
proof -
  have "braceLoop (([0x7B] @ s @ [0x7D]) @ rest) i bc e
          = braceLoop rest (i + length ([0x7B] @ s @ [0x7D])) bc e" if "1 \<le> bc" for rest i bc e
  proof -
    have "braceLoop (([0x7B] @ s @ [0x7D]) @ rest) i bc e
            = braceLoop (s @ ([0x7D] @ rest)) (Suc i) (bc + 1) e"
      by simp
    also have "\<dots> = braceLoop ([0x7D] @ rest) (Suc i + length s) (bc + 1) e"
      using assms that by (simp add: neutral_def)
    also have "\<dots> = braceLoop rest (Suc (Suc i + length s)) bc e"
      using that by simp
    finally show ?thesis by simp
  qed
  then show ?thesis by (simp add: neutral_def)
qed

lemma neutral_joinWith:
  "neutral sep \<Longrightarrow> \<forall>x \<in> set xs. neutral x \<Longrightarrow> neutral (joinWith sep xs)"
  by (induction sep xs rule: joinWith.induct) (simp_all add: neutral_Nil neutral_append)

lemma set_joinWith: "set (joinWith sep xs) \<subseteq> set sep \<union> \<Union> (set ` set xs)"
  by (induction sep xs rule: joinWith.induct) auto

lemma plainString_safe: "plainString s \<longleftrightarrow> (\<forall>c \<in> set s. safeChar c)"
  by (auto simp add: plainString_def safeChar_def)

lemma safeChar_of_nat:
  assumes "m < 96 \<or> (96 < m \<and> m < 123)"
  shows "safeChar (of_nat m :: jschar)"
proof -
  have "m < 65536" using assms by auto
  then have u: "unat (of_nat m :: jschar) = m" by (simp add: unat_of_nat)
  have a: "(of_nat m :: jschar) \<noteq> 0x7B"
  proof
    assume "(of_nat m :: jschar) = 0x7B"
    then have "unat (of_nat m :: jschar) = unat (0x7B :: jschar)" by simp
    with u assms show False by simp
  qed
  have b: "(of_nat m :: jschar) \<noteq> 0x7D"
  proof
    assume "(of_nat m :: jschar) = 0x7D"
    then have "unat (of_nat m :: jschar) = unat (0x7D :: jschar)" by simp
    with u assms show False by simp
  qed
  have c: "(of_nat m :: jschar) \<noteq> 0x60"
  proof
    assume "(of_nat m :: jschar) = 0x60"
    then have "unat (of_nat m :: jschar) = unat (0x60 :: jschar)" by simp
    with u assms show False by simp
  qed
  from a b c show ?thesis by (simp add: safeChar_def)
qed

lemma hexDigit_safe: "n < 16 \<Longrightarrow> safeChar (hexDigit n)"
  unfolding hexDigit_def by (rule safeChar_of_nat) auto

lemma digit_safe: "n < 10 \<Longrightarrow> safeChar (48 + of_nat n)"
  using safeChar_of_nat [of "48 + n"] by simp

lemma unicodeEscape_safe: "\<forall>x \<in> set (unicodeEscape c). safeChar x"
  by (simp add: unicodeEscape_def Let_def hexDigit_safe) (simp add: safeChar_def)

lemma quoteUnits_step:
  "\<exists>e r. quoteUnits (c # cs) = e @ quoteUnits r \<and> length r \<le> length cs \<and> set r \<subseteq> set cs
         \<and> (\<forall>x \<in> set e. safeChar x \<or> x = c \<or> x \<in> set cs)"
proof -
  have k: "safeChar 0x5C" "safeChar 0x62" "safeChar 0x74" "safeChar 0x6E" "safeChar 0x66"
    "safeChar 0x72" "safeChar 0x22"
    by (simp_all add: safeChar_def)
  have e: "\<forall>x \<in> set (unicodeEscape c). safeChar x" by (rule unicodeEscape_safe)
  have "(\<exists>x. quoteUnits (c # cs) = [0x5C, x] @ quoteUnits cs \<and> safeChar x)
      \<or> quoteUnits (c # cs) = unicodeEscape c @ quoteUnits cs
      \<or> (cs = [] \<and> quoteUnits (c # cs) = unicodeEscape c)
      \<or> (\<exists>d ds. cs = d # ds \<and> quoteUnits (c # cs) = [c, d] @ quoteUnits ds)
      \<or> quoteUnits (c # cs) = [c] @ quoteUnits cs"
    unfolding quoteUnits.simps(2) [of c cs]
    using k by (cases cs) auto
  then consider
      (esc) x where "quoteUnits (c # cs) = [0x5C, x] @ quoteUnits cs" "safeChar x"
    | (uni) "quoteUnits (c # cs) = unicodeEscape c @ quoteUnits cs"
    | (lone) "cs = []" "quoteUnits (c # cs) = unicodeEscape c"
    | (pair) d ds where "cs = d # ds" "quoteUnits (c # cs) = [c, d] @ quoteUnits ds"
    | (same) "quoteUnits (c # cs) = [c] @ quoteUnits cs"
    by blast
  then show ?thesis
  proof cases
    case esc
    then show ?thesis using k by (intro exI [of _ "[0x5C, x]"] exI [of _ cs]) simp
  next
    case uni
    then show ?thesis using e by (intro exI [of _ "unicodeEscape c"] exI [of _ cs]) simp
  next
    case lone
    then show ?thesis using e by (intro exI [of _ "unicodeEscape c"] exI [of _ "[]"]) simp
  next
    case pair
    then show ?thesis by (intro exI [of _ "[c, d]"] exI [of _ ds]) auto
  next
    case same
    then show ?thesis by (intro exI [of _ "[c]"] exI [of _ cs]) simp
  qed
qed

lemma quoteUnits_safe: "\<forall>c \<in> set s. safeChar c \<Longrightarrow> \<forall>c \<in> set (quoteUnits s). safeChar c"
proof (induction s rule: length_induct)
  case (1 s)
  show ?case
  proof (cases s)
    case Nil
    then show ?thesis by simp
  next
    case (Cons c cs)
    from quoteUnits_step [of c cs] obtain e r where
      q: "quoteUnits (c # cs) = e @ quoteUnits r" and l: "length r \<le> length cs"
      and sub: "set r \<subseteq> set cs" and es: "\<forall>x \<in> set e. safeChar x \<or> x = c \<or> x \<in> set cs"
      by blast
    have "\<forall>x \<in> set r. safeChar x" using sub "1.prems" Cons by auto
    moreover have "length r < length s" using l Cons by simp
    ultimately have "\<forall>x \<in> set (quoteUnits r). safeChar x" using "1.IH" by blast
    moreover have "\<forall>x \<in> set e. safeChar x" using es "1.prems" Cons by auto
    ultimately show ?thesis using q Cons by auto
  qed
qed

lemma quoteJSONString_safe:
  "\<forall>c \<in> set s. safeChar c \<Longrightarrow> \<forall>c \<in> set (quoteJSONString s). safeChar c"
  using quoteUnits_safe [of s] by (auto simp add: quoteJSONString_def safeChar_def)

lemma digitsOf_safe: "\<forall>c \<in> set (digitsOf n). safeChar c"
proof (induction n rule: digitsOf.induct)
  case (1 n)
  show ?case
  proof (cases "n < 10")
    case True
    then show ?thesis by (subst digitsOf.simps) (simp add: digit_safe)
  next
    case False
    have "n mod 10 < 10" by simp
    then have "safeChar (48 + of_nat (n mod 10))" by (rule digit_safe)
    with False 1 show ?thesis by (subst digitsOf.simps) auto
  qed
qed

lemma numberToString_safe: "\<forall>c \<in> set (numberToString m e). safeChar c"
proof (cases "m = 0")
  case True
  then show ?thesis by (simp add: numberToString_def js_def safeChar_def)
next
  case False
  obtain a e' where s: "stripZeros (nat \<bar>m\<bar>) e = (a, e')" by (cases "stripZeros (nat \<bar>m\<bar>) e")
  have k: "safeChar 0x30" "safeChar 0x2E" "safeChar 0x65" "safeChar 0x2D" "safeChar 0x2B"
    by (simp_all add: safeChar_def)
  have d: "\<forall>c \<in> set (digitsOf j). safeChar c" for j by (rule digitsOf_safe)
  have t: "\<forall>c \<in> set (take j (digitsOf a)). safeChar c" for j
    using d [of a] by (meson in_set_takeD)
  have r: "\<forall>c \<in> set (drop j (digitsOf a)). safeChar c" for j
    using d [of a] by (meson in_set_dropD)
  show ?thesis
    using False s k d t r
    by (auto simp add: numberToString_def Let_def js_def)
qed

lemma neutral_safe: "\<forall>c \<in> set s. safeChar c \<Longrightarrow> neutral s"
  by (rule neutral_braceFree) (auto simp add: safeChar_def)

lemma safe_nl: "\<forall>c \<in> set nl. safeChar c"
  by (simp add: nl_def safeChar_def)

lemma serialize_neutral:
  "\<forall>c \<in> set gap. safeChar c \<Longrightarrow> \<forall>c \<in> set ind. safeChar c \<Longrightarrow> plain v \<Longrightarrow>
   neutral (serialize gap ind v)"
proof (induction gap ind v rule: serialize.induct)
  case (1 gap ind)
  then show ?case by (simp add: neutral_safe js_def safeChar_def)
next
  case (2 gap ind b)
  then show ?case by (simp add: neutral_safe js_def safeChar_def)
next
  case (3 gap ind m e)
  then show ?case by (simp add: neutral_safe numberToString_safe)
next
  case (4 gap ind s)
  then show ?case by (simp add: neutral_safe quoteJSONString_safe plainString_safe)
next
  case (5 gap ind xs)
  have step: "\<forall>c \<in> set (ind @ gap). safeChar c" using 5 by auto
  have items: "\<forall>x \<in> set (map (serialize gap (ind @ gap)) xs). neutral x"
    if "xs \<noteq> []"
  proof
    fix x assume "x \<in> set (map (serialize gap (ind @ gap)) xs)"
    then obtain y where y: "y \<in> set xs" "x = serialize gap (ind @ gap) y" by auto
    have py: "plain y" using "5.prems"(3) y by simp
    have "neutral (serialize gap (ind @ gap) y)"
    proof (cases "gap = []")
      case True
      show ?thesis by (rule "5.IH"(1) [OF that True y(1) "5.prems"(1) step py])
    next
      case False
      show ?thesis by (rule "5.IH"(2) [OF that False y(1) "5.prems"(1) step py])
    qed
    then show "neutral x" using y by simp
  qed
  have n1: "neutral (js '','')" by (simp add: neutral_safe js_def safeChar_def)
  have n2: "neutral (js '','' @ nl @ ind @ gap)"
    using 5 by (intro neutral_safe) (auto simp add: js_def safeChar_def nl_def)
  have n3: "neutral (nl @ ind @ gap)" "neutral (nl @ ind)"
    using 5 by (auto intro!: neutral_safe simp add: safeChar_def nl_def)
  show ?case
  proof (cases "xs = []")
    case True
    then show ?thesis by (simp add: neutral_safe js_def safeChar_def)
  next
    case False
    have j1: "neutral (joinWith (js '','') (map (serialize gap (ind @ gap)) xs))"
      using n1 items [OF False] by (rule neutral_joinWith)
    have j2: "neutral (joinWith (js '','' @ nl @ ind @ gap) (map (serialize gap (ind @ gap)) xs))"
      using n2 items [OF False] by (rule neutral_joinWith)
    have b: "neutral (js ''['')" "neutral (js '']'')"
      by (simp_all add: neutral_safe js_def safeChar_def)
    have n0: "neutral nl" "neutral ind" "neutral gap"
      using 5 safe_nl by (auto intro!: neutral_safe)
    show ?thesis
      using False j1 j2 b n0
      by (auto intro!: neutral_append)
  qed
next
  case (6 gap ind kvs)
  have step: "\<forall>c \<in> set (ind @ gap). safeChar c" using 6 by auto
  have q: "neutral (quoteJSONString k)" if "(k, v) \<in> set kvs" for k v
    using "6.prems"(3) that by (auto intro!: neutral_safe quoteJSONString_safe simp add: plainString_safe)
  have c: "neutral (js '':'')" "neutral (js '': '')"
    by (simp_all add: neutral_safe js_def safeChar_def)
  have v: "neutral (serialize gap (ind @ gap) v)" if "(k, v) \<in> set kvs" for k v
  proof -
    have pv: "plain v" using "6.prems"(3) that by auto
    have ne: "kvs \<noteq> []" using that by auto
    show ?thesis
    proof (cases "gap = []")
      case True
      show ?thesis by (rule "6.IH"(1) [OF ne True that refl "6.prems"(1) step pv])
    next
      case False
      show ?thesis by (rule "6.IH"(2) [OF ne False that refl "6.prems"(1) step pv])
    qed
  qed
  have m1: "\<forall>x \<in> set (map (\<lambda>(k, v). quoteJSONString k @ js '':'' @ serialize gap (ind @ gap) v) kvs).
              neutral x"
    using q v c by (auto intro!: neutral_append)
  have m2: "\<forall>x \<in> set (map (\<lambda>(k, v). quoteJSONString k @ js '': '' @ serialize gap (ind @ gap) v) kvs).
              neutral x"
    using q v c by (auto intro!: neutral_append)
  have n1: "neutral (js '','')" by (simp add: neutral_safe js_def safeChar_def)
  have n2: "neutral (js '','' @ nl @ ind @ gap)"
    using 6 by (intro neutral_safe) (auto simp add: js_def safeChar_def nl_def)
  have n3: "neutral (nl @ ind @ gap)" "neutral (nl @ ind)"
    using 6 by (auto intro!: neutral_safe simp add: safeChar_def nl_def)
  have j1: "neutral (joinWith (js '','')
               (map (\<lambda>(k, v). quoteJSONString k @ js '':'' @ serialize gap (ind @ gap) v) kvs))"
    using n1 m1 by (rule neutral_joinWith)
  have j2: "neutral (joinWith (js '','' @ nl @ ind @ gap)
               (map (\<lambda>(k, v). quoteJSONString k @ js '': '' @ serialize gap (ind @ gap) v) kvs))"
    using n2 m2 by (rule neutral_joinWith)
  have e: "neutral (js ''{}'')"
    using neutral_braces [OF neutral_Nil] by (simp add: js_def)
  have b1: "neutral (js ''{'' @ s @ js ''}'')" if "neutral s" for s
    using neutral_braces [OF that] by (simp add: js_def)
  have b2: "neutral (js ''{'' @ nl @ ind @ gap @ s @ nl @ ind @ js ''}'')" if "neutral s" for s
  proof -
    have "neutral ((nl @ ind @ gap) @ s @ (nl @ ind))"
      by (rule neutral_append [OF n3(1) neutral_append [OF that n3(2)]])
    from neutral_braces [OF this] show ?thesis by (simp add: js_def)
  qed
  show ?case
  proof (cases "kvs = []")
    case True
    then show ?thesis using e by simp
  next
    case False
    show ?thesis
    proof (cases "gap = []")
      case True
      then show ?thesis using False b1 [OF j1] by simp
    next
      case gapne: False
      then show ?thesis using False b2 [OF j2] by simp
    qed
  qed
qed

lemma safe_not_backtick: "safeChar c \<Longrightarrow> c \<noteq> 0x60"
  by (simp add: safeChar_def)

lemma serialize_no_backtick:
  "0x60 \<notin> set gap \<Longrightarrow> 0x60 \<notin> set ind \<Longrightarrow> plain v \<Longrightarrow> 0x60 \<notin> set (serialize gap ind v)"
proof (induction gap ind v rule: serialize.induct)
  case (1 gap ind)
  then show ?case by (simp add: js_def)
next
  case (2 gap ind b)
  then show ?case by (simp add: js_def)
next
  case (3 gap ind m e)
  then show ?case using numberToString_safe [of m e] safe_not_backtick by auto
next
  case (4 gap ind s)
  then show ?case
    using quoteJSONString_safe [of s] safe_not_backtick by (auto simp add: plainString_safe)
next
  case (5 gap ind xs)
  have step: "0x60 \<notin> set (ind @ gap)" using 5 by simp
  have items: "0x60 \<notin> set (serialize gap (ind @ gap) y)" if "y \<in> set xs" for y
  proof -
    have py: "plain y" using "5.prems"(3) that by simp
    have ne: "xs \<noteq> []" using that by auto
    show ?thesis
    proof (cases "gap = []")
      case True
      show ?thesis by (rule "5.IH"(1) [OF ne True that "5.prems"(1) step py])
    next
      case False
      show ?thesis by (rule "5.IH"(2) [OF ne False that "5.prems"(1) step py])
    qed
  qed
  have j: "0x60 \<notin> set (joinWith sep (map (serialize gap (ind @ gap)) xs))"
    if "0x60 \<notin> set sep" for sep
    using set_joinWith [of sep "map (serialize gap (ind @ gap)) xs"] that items by auto
  have s1: "0x60 \<notin> set (js '','')" by (simp add: js_def)
  have s2: "0x60 \<notin> set (js '','' @ nl @ ind @ gap)" using 5 by (simp add: js_def nl_def)
  show ?case
    using j [OF s1] j [OF s2] "5.prems" by (cases "gap = []") (simp_all add: js_def nl_def)
next
  case (6 gap ind kvs)
  have step: "0x60 \<notin> set (ind @ gap)" using 6 by simp
  have q: "0x60 \<notin> set (quoteJSONString k)" if "(k, v) \<in> set kvs" for k v
  proof -
    have "\<forall>c \<in> set k. safeChar c" using "6.prems"(3) that by (auto simp add: plainString_safe)
    from quoteJSONString_safe [OF this] safe_not_backtick show ?thesis by auto
  qed
  have v: "0x60 \<notin> set (serialize gap (ind @ gap) v)" if "(k, v) \<in> set kvs" for k v
  proof -
    have pv: "plain v" using "6.prems"(3) that by auto
    have ne: "kvs \<noteq> []" using that by auto
    show ?thesis
    proof (cases "gap = []")
      case True
      show ?thesis by (rule "6.IH"(1) [OF ne True that refl "6.prems"(1) step pv])
    next
      case False
      show ?thesis by (rule "6.IH"(2) [OF ne False that refl "6.prems"(1) step pv])
    qed
  qed
  have j1: "0x60 \<notin> set (joinWith sep
               (map (\<lambda>(k, v). quoteJSONString k @ js '':'' @ serialize gap (ind @ gap) v) kvs))"
    if "0x60 \<notin> set sep" for sep
    using set_joinWith [of sep
        "map (\<lambda>(k, v). quoteJSONString k @ js '':'' @ serialize gap (ind @ gap) v) kvs"]
      that q v by (auto simp add: js_def)
  have j2: "0x60 \<notin> set (joinWith sep
               (map (\<lambda>(k, v). quoteJSONString k @ js '': '' @ serialize gap (ind @ gap) v) kvs))"
    if "0x60 \<notin> set sep" for sep
    using set_joinWith [of sep
        "map (\<lambda>(k, v). quoteJSONString k @ js '': '' @ serialize gap (ind @ gap) v) kvs"]
      that q v by (auto simp add: js_def)
  have s1: "0x60 \<notin> set (js '','')" by (simp add: js_def)
  have s2: "0x60 \<notin> set (js '','' @ nl @ ind @ gap)" using 6 by (simp add: js_def nl_def)
  show ?case
    using j1 [OF s1] j2 [OF s2] "6.prems" by (cases "gap = []") (simp_all add: js_def nl_def)
qed

lemma codeBlockMatch_no_backtick: "0x60 \<notin> set s \<Longrightarrow> codeBlockMatch s = None"
  by (induction s) (auto simp add: codeBlockAt_def startsWith_def js_def)

lemma serialize_singleton:
  "gap \<noteq> [] \<Longrightarrow>
   serialize gap ind (JObj [(k, v)])
     = js ''{'' @ nl @ ind @ gap @ quoteJSONString k @ js '': '' @ serialize gap (ind @ gap) v
       @ nl @ ind @ js ''}''"
  by simp

lemma quote_tool_call: "quoteJSONString (js ''tool_call'') = js ''\"tool_call\"''"
  by code_simp

lemma stringify_toolCallObject:
  "json_stringify (toolCallObject fc) 2
     = [0x7B, 0x0A, 0x20, 0x20] @ js ''\"tool_call\"'' @ [0x3A, 0x20]
       @ serialize [0x20, 0x20] [0x20, 0x20]
           (JObj (optField ''name'' (fc_name fc) @ optField ''arguments'' (fc_args fc)))
       @ [0x0A, 0x7D]"
proof -
  have g: "replicate (min 2 10) (0x20 :: jschar) = [0x20, 0x20]"
    by (simp add: numeral_2_eq_2)
  show ?thesis
    unfolding json_stringify_def toolCallObject_def g
    by (subst serialize_singleton) (simp_all add: quote_tool_call, simp add: js_def nl_def)
qed

lemma braceLoop_object:
  assumes "neutral mid"
  shows "braceLoop ([0x7B] @ mid @ [0x7D] @ rest) i 0 e = (0, i + length mid + 2)"
proof -
  have n: "braceLoop (mid @ r) j 1 e = braceLoop r (j + length mid) 1 e" for r j
    using assms by (simp add: neutral_def)
  have "braceLoop ([0x7B] @ mid @ [0x7D] @ rest) i 0 e = braceLoop (mid @ ([0x7D] @ rest)) (Suc i) 1 e"
    by simp
  also have "\<dots> = braceLoop ([0x7D] @ rest) (Suc i + length mid) 1 e"
    by (rule n)
  also have "\<dots> = (0, i + length mid + 2)"
    by simp
  finally show ?thesis .
qed

lemma substring_middle: "substring (a @ s @ b) (length a) (length a + length s) = s"
  by (simp add: substring_def Let_def)

lemma extract_isolates:
  assumes n: "neutral inner" and b: "0x60 \<notin> set inner"
  shows "extractJsonText
           (nl @ ([0x7B, 0x0A, 0x20, 0x20] @ js ''\"tool_call\"'' @ [0x3A, 0x20] @ inner @ [0x0A, 0x7D]) @ nl)
         = Some ([0x7B, 0x0A, 0x20, 0x20] @ js ''\"tool_call\"'' @ [0x3A, 0x20] @ inner @ [0x0A, 0x7D])"
proof -
  let ?S = "[0x7B, 0x0A, 0x20, 0x20] @ js ''\"tool_call\"'' @ [0x3A, 0x20] @ inner @ [0x0A, 0x7D]"
  let ?t = "nl @ ?S @ nl"
  have nb: "0x60 \<notin> set ?t" using b by (simp add: js_def nl_def)
  have c: "codeBlockMatch ?t = None" by (rule codeBlockMatch_no_backtick [OF nb])
  have i: "indexOf ?t (js ''\"tool_call\"'') = Some 5"
    by (simp add: js_def nl_def startsWith_def)
  have l: "lastIndexOf ?t 0x7B 5 = Some 1"
    by (simp add: lastIndexOf_def js_def nl_def)
  let ?mid = "[0x0A, 0x20, 0x20] @ js ''\"tool_call\"'' @ [0x3A, 0x20] @ inner @ [0x0A]"
  have p1: "neutral ([0x0A, 0x20, 0x20] @ js ''\"tool_call\"'' @ [0x3A, 0x20])"
    by (rule neutral_safe) (simp add: js_def safeChar_def)
  have p2: "neutral [0x0A]"
    by (rule neutral_safe) (simp add: safeChar_def)
  have nm: "neutral ?mid"
    using neutral_append [OF p1 neutral_append [OF n p2]] by simp
  have d: "drop 1 ?t = [0x7B] @ ?mid @ [0x7D] @ nl" by (simp add: nl_def)
  have bl: "braceLoop (drop 1 ?t) 1 0 1 = (0, 1 + length ?S)"
    unfolding d braceLoop_object [OF nm] by simp
  have ln: "length nl = 1" by (simp add: nl_def)
  have s: "substring ?t 1 (1 + length ?S) = ?S"
    using substring_middle [of nl ?S nl] by (simp only: ln)
  show ?thesis
    using c i l bl s
    by (simp add: extractJsonText_def braceExtract_def)
qed

lemma callOfParsed_toolCallObject:
  assumes "fc_name fc = Some (JStr n)" and "n \<noteq> []" and "fc_args fc = Some (JObj kvs)"
      and "declaredFunctions tools = Some fds" and "Some n \<in> set (map fd_name fds)"
  shows "callOfParsed (toolCallObject fc) tools = Some fc"
proof -
  have acc: "toolNameAccepted tools (JStr n)"
    using assms(4,5)
    by (auto simp add: toolNameAccepted_def declaredFunctions_def
          split: option.splits list.splits optionalKey.splits)
  have k: "js ''name'' \<noteq> js ''arguments''" by (simp add: js_def)
  have "callOfParsed (toolCallObject fc) tools
          = Some \<lparr> fc_name = Some (JStr n), fc_args = Some (JObj kvs) \<rparr>"
    using assms(1,2,3) acc k by (simp add: callOfParsed_def toolCallObject_def Let_def)
  also have "\<lparr> fc_name = Some (JStr n), fc_args = Some (JObj kvs) \<rparr> = fc"
    using assms(1,3) by simp
  finally show ?thesis .
qed

lemma stringify_nonempty: "json_stringify (toolCallObject fc) 2 \<noteq> []"
  by (simp add: stringify_toolCallObject)

lemma extract_plain_call:
  assumes "fc_name fc = Some (JStr n)" and "fc_args fc = Some a"
      and "plainString n" and "plain a"
  shows "extractJsonText (nl @ json_stringify (toolCallObject fc) 2 @ nl)
           = Some (json_stringify (toolCallObject fc) 2)"
proof -
  let ?inner = "serialize [0x20, 0x20] [0x20, 0x20] (JObj [(js ''name'', JStr n), (js ''arguments'', a)])"
  have p: "plain (JObj [(js ''name'', JStr n), (js ''arguments'', a)])"
    using assms(3,4) by (simp add: plainString_def js_def)
  have g: "\<forall>c \<in> set [0x20, 0x20 :: jschar]. safeChar c" by (simp add: safeChar_def)
  have n: "neutral ?inner" by (rule serialize_neutral [OF g g p])
  have b: "0x60 \<notin> set ?inner" by (rule serialize_no_backtick [OF _ _ p]) simp_all
  have s: "json_stringify (toolCallObject fc) 2
             = [0x7B, 0x0A, 0x20, 0x20] @ js ''\"tool_call\"'' @ [0x3A, 0x20] @ ?inner @ [0x0A, 0x7D]"
    using assms(1,2) by (simp add: stringify_toolCallObject)
  show ?thesis unfolding s by (rule extract_isolates [OF n b])
qed

text \<open>
  C2, as the code has it.  Take a function-call part whose name is a string that is not
  empty and is declared by the first tool entry, and whose arguments are an object; let
  \<^verbatim>\<open>JSON.parse\<close> give back the call object from its serialisation.  If the extractor
  isolates, in the flattened text, the serialised JSON as it was printed, then the round
  trip gives the same name and the same arguments.  It does isolate it whenever no string
  of the name and the arguments, key or value, contains a brace or a backtick.
\<close>

theorem functionCall_round_trip:
  assumes "JSON_stringify B = json_stringify"
      and "JSON_parse B (json_stringify (toolCallObject fc) 2) = Some (toolCallObject fc)"
      and "\<not> truthyS (ptext part)" and "functionCall part = Some fc"
      and "fc_name fc = Some (JStr n)" and "n \<noteq> []" and "fc_args fc = Some (JObj kvs)"
      and "declaredFunctions tools = Some fds" and "Some n \<in> set (map fd_name fds)"
  shows "(extractJsonText (partsToText B (Some [part])) = Some (json_stringify (toolCallObject fc) 2)
            \<longrightarrow> parseToolCall B (partsToText B (Some [part])) tools = Some fc)
       \<and> (plainString n \<and> plain (JObj kvs)
            \<longrightarrow> parseToolCall B (partsToText B (Some [part])) tools = Some fc)"
proof -
  have t: "partsToText B (Some [part]) = nl @ json_stringify (toolCallObject fc) 2 @ nl"
    using assms(1,3,4) by (simp add: partsToText_def partPieces_def)
  have c: "callOfParsed (toolCallObject fc) tools = Some fc"
    by (rule callOfParsed_toolCallObject [OF assms(5,6,7,8,9)])
  have one: "parseToolCall B (partsToText B (Some [part])) tools = Some fc"
    if "extractJsonText (partsToText B (Some [part])) = Some (json_stringify (toolCallObject fc) 2)"
    using that assms(2) c stringify_nonempty [of fc] by (simp add: parseToolCall_def)
  have two: "extractJsonText (partsToText B (Some [part])) = Some (json_stringify (toolCallObject fc) 2)"
    if "plainString n" and "plain (JObj kvs)"
    unfolding t by (rule extract_plain_call [OF assms(5,7) that])
  from one two show ?thesis by blast
qed

lemma listFiles_reparse:
  "JSON_parse ecma (json_stringify (toolCallObject listFilesCall) 2) = Some (toolCallObject listFilesCall)"
  by code_simp

theorem functionCall_round_trip_witness:
  "JSON_parse ecma (json_stringify (toolCallObject listFilesCall) 2) = Some (toolCallObject listFilesCall)
   \<and> plainString (js ''list_files'') \<and> plain (JObj [(js ''dir'', JStr (js ''.''))])
   \<and> parseToolCall ecma (partsToText ecma (Some [functionCallPart listFilesCall]))
         (declares [''list_files'']) = Some listFilesCall"
proof -
  have h1: "JSON_stringify ecma = json_stringify" by (simp add: ecma_def)
  have h3: "\<not> truthyS (ptext (functionCallPart listFilesCall))" by (simp add: functionCallPart_def)
  have h4: "functionCall (functionCallPart listFilesCall) = Some listFilesCall"
    by (simp add: functionCallPart_def)
  have h5: "fc_name listFilesCall = Some (JStr (js ''list_files''))" by (simp add: listFilesCall_def)
  have h6: "js ''list_files'' \<noteq> []" by (simp add: js_def)
  have h7: "fc_args listFilesCall = Some (JObj [(js ''dir'', JStr (js ''.''))])"
    by (simp add: listFilesCall_def)
  have h8: "declaredFunctions (declares [''list_files''])
              = Some [\<lparr> fd_name = Some (js ''list_files''), fd_description = None, fd_parameters = None \<rparr>]"
    by (simp add: declaredFunctions_def declares_def)
  have h9: "Some (js ''list_files'')
              \<in> set (map fd_name [\<lparr> fd_name = Some (js ''list_files''), fd_description = None,
                                      fd_parameters = None \<rparr>])"
    by simp
  have p1: "plainString (js ''list_files'')" by (simp add: plainString_def js_def)
  have p2: "plain (JObj [(js ''dir'', JStr (js ''.''))])" by (simp add: plainString_def js_def)
  show ?thesis
    using functionCall_round_trip [OF h1 listFiles_reparse h3 h4 h5 h6 h7 h8 h9] p1 p2 listFiles_reparse
    by simp
qed

text \<open>
  Against C2 as stated: a call of the declared function \<open>write_file\<close> whose content argument
  holds an opening brace.  The serialised call parses back to itself, but the brace
  counter of the extractor never returns to zero on the flattened text, so nothing is
  extracted.
\<close>

theorem brace_in_argument_counterexample:
  "JSON_parse ecma (JSON_stringify ecma (toolCallObject writeFileCall) 2) = Some (toolCallObject writeFileCall)
   \<and> parseToolCall ecma (partsToText ecma (Some [functionCallPart writeFileCall]))
         (declares [''write_file'']) = None"
  by code_simp

end
